theory Spec2Isabelle
  imports Main "HOL-Library.Sublist"
begin

section \<open>The subfinder REST API: request handling of \<open>main.go\<close>\<close>

text \<open>
  A shallow embedding of the two enumeration handlers of \<open>main.go\<close>
  (\<open>enumerateDomainHandler\<close>, \<open>enumerateBatchHandler\<close>), of \<open>isValidDomain\<close>
  and of \<open>sendError\<close>. Go strings are byte sequences and \<open>len\<close> counts bytes, so a Go
  \<open>string\<close> is a \<open>char list\<close> here (an Isabelle \<open>char\<close> is one byte). Go's \<open>int\<close> is read
  as \<open>int\<close>: the handlers only compare, copy and increment such numbers.
\<close>

subsection \<open>The functions of Go's \<open>strings\<close> package that the program calls\<close>

text \<open>\<open>strings.HasPrefix(s, prefix)\<close> is \<open>len(s) >= len(prefix) && s[:len(prefix)] == prefix\<close>.\<close>

definition HasPrefix :: "string \<Rightarrow> string \<Rightarrow> bool" where
  "HasPrefix s pre \<longleftrightarrow> length pre \<le> length s \<and> take (length pre) s = pre"

text \<open>\<open>strings.HasSuffix(s, suffix)\<close> is
  \<open>len(s) >= len(suffix) && s[len(s)-len(suffix):] == suffix\<close>.\<close>

definition HasSuffix :: "string \<Rightarrow> string \<Rightarrow> bool" where
  "HasSuffix s suf \<longleftrightarrow> length suf \<le> length s \<and> drop (length s - length suf) s = suf"

text \<open>\<open>strings.Contains(s, substr)\<close> is \<open>Index(s, substr) >= 0\<close>: some offset of \<open>s\<close>
  starts with \<open>substr\<close>. The offsets are tried from the left.\<close>

fun Contains :: "string \<Rightarrow> string \<Rightarrow> bool" where
  "Contains [] substr = (substr = [])"
| "Contains (c # cs) substr = (HasPrefix (c # cs) substr \<or> Contains cs substr)"

text \<open>\<open>strings.Split(s, sep)\<close> for a separator that is not empty (the program passes
  \<open>"."\<close> and \<open>"\n"\<close>): \<open>s\<close> is cut at every occurrence of \<open>sep\<close>, found from the left,
  and the piece after the last occurrence closes the list, so the result is never empty.
  \<open>splitFrom sep piece rest\<close> holds the piece collected since the last cut.\<close>

fun splitFrom :: "string \<Rightarrow> string \<Rightarrow> string \<Rightarrow> string list" where
  "splitFrom sep piece [] = [piece]"
| "splitFrom sep piece (c # cs) =
     (if sep \<noteq> [] \<and> HasPrefix (c # cs) sep
      then piece # splitFrom sep [] (drop (length sep - 1) cs)
      else splitFrom sep (piece @ [c]) cs)"

definition Split :: "string \<Rightarrow> string \<Rightarrow> string list" where
  "Split s sep = splitFrom sep [] s"

subsection \<open>Domain validation\<close>

text \<open>The loop over the labels of \<open>isValidDomain\<close>: it returns \<open>false\<close> at the first label
  that is empty or longer than 63 bytes.\<close>

fun partsOk :: "string list \<Rightarrow> bool" where
  "partsOk [] = True"
| "partsOk (part # parts) =
     (if length part = 0 \<or> length part > 63 then False else partsOk parts)"

definition isValidDomain :: "string \<Rightarrow> bool" where
  "isValidDomain domain =
     (if length domain = 0 \<or> length domain > 253 then False
      else if Contains domain ''..'' \<or> HasPrefix domain ''.'' \<or> HasSuffix domain ''.''
        then False
      else (let parts = Split domain ''.'' in
        if length parts < 2 then False
        else partsOk parts))"

subsection \<open>Options\<close>

text \<open>\<open>APIOptions\<close>: the options of a request. \<open>runner_Options\<close>: the fields of the
  engine's \<open>runner.Options\<close> that the handlers set; every other field keeps its zero
  value.\<close>

record APIOptions =
  Threads :: int
  Timeout :: int
  MaxEnumerationTime :: int
  All :: bool
  OnlyRecursive :: bool

record runner_Options =
  opt_Threads :: int
  opt_Timeout :: int
  opt_MaxEnumerationTime :: int
  opt_JSON :: bool
  opt_All :: bool
  opt_OnlyRecursive :: bool

text \<open>Both handlers build the engine's options with the same statements (lines 126-148
  and 229-251): the defaults first, then the overrides when \<open>req.Options\<close> is not
  \<open>nil\<close>.\<close>

definition defaultOptions :: runner_Options where
  "defaultOptions =
     \<lparr>opt_Threads = 10, opt_Timeout = 30, opt_MaxEnumerationTime = 10, opt_JSON = True,
      opt_All = False, opt_OnlyRecursive = False\<rparr>"

definition overrideOptions :: "APIOptions \<Rightarrow> runner_Options \<Rightarrow> runner_Options" where
  "overrideOptions u opts =
     (let opts1 = (if Threads u > 0 then opts\<lparr>opt_Threads := Threads u\<rparr> else opts);
          opts2 = (if Timeout u > 0 then opts1\<lparr>opt_Timeout := Timeout u\<rparr> else opts1);
          opts3 = (if MaxEnumerationTime u > 0
                   then opts2\<lparr>opt_MaxEnumerationTime := MaxEnumerationTime u\<rparr> else opts2)
      in opts3\<lparr>opt_All := All u, opt_OnlyRecursive := OnlyRecursive u\<rparr>)"

definition buildOptions :: "APIOptions option \<Rightarrow> runner_Options" where
  "buildOptions reqOptions =
     (case reqOptions of
        None \<Rightarrow> defaultOptions
      | Some u \<Rightarrow> overrideOptions u defaultOptions)"

subsection \<open>White space: \<open>strings.TrimSpace\<close>\<close>

text \<open>
  \<open>strings.TrimSpace\<close> removes the leading and the trailing white space as Unicode
  defines it (\<open>unicode.IsSpace\<close>): the six ASCII characters tab, line feed, vertical tab,
  form feed, carriage return and space, and the runes U+0085, U+00A0, U+1680,
  U+2000..U+200A, U+2028, U+2029, U+202F, U+205F and U+3000. A Go string holds UTF-8, so
  the runes beyond ASCII are the byte sequences below; a byte that starts no such sequence
  is no white space (an invalid byte decodes to U+FFFD), and the trimming stops there.
\<close>

text \<open>The value of a byte, from 0 to 255 (Go's \<open>uint8\<close>); the value of a rune is an
  integer as well.\<close>

definition byte :: "char \<Rightarrow> int" where
  "byte c = of_char c"

definition isSpace1 :: "int \<Rightarrow> bool" where
  "isSpace1 a \<longleftrightarrow> a = 0x09 \<or> a = 0x0A \<or> a = 0x0B \<or> a = 0x0C \<or> a = 0x0D \<or> a = 0x20"

definition isSpace2 :: "int \<Rightarrow> int \<Rightarrow> bool" where
  "isSpace2 a b \<longleftrightarrow> a = 0xC2 \<and> (b = 0x85 \<or> b = 0xA0)"

definition isSpace3 :: "int \<Rightarrow> int \<Rightarrow> int \<Rightarrow> bool" where
  "isSpace3 a b c \<longleftrightarrow>
     (a = 0xE1 \<and> b = 0x9A \<and> c = 0x80)
     \<or> (a = 0xE2 \<and> b = 0x80 \<and> ((0x80 \<le> c \<and> c \<le> 0x8A) \<or> c = 0xA8 \<or> c = 0xA9 \<or> c = 0xAF))
     \<or> (a = 0xE2 \<and> b = 0x81 \<and> c = 0x9F)
     \<or> (a = 0xE3 \<and> b = 0x80 \<and> c = 0x80)"

text \<open>The number of bytes of the white-space rune that starts the bytes, 0 when none does.\<close>

fun spaceWidth :: "int list \<Rightarrow> nat" where
  "spaceWidth [] = 0"
| "spaceWidth [a] = (if isSpace1 a then 1 else 0)"
| "spaceWidth [a, b] = (if isSpace1 a then 1 else if isSpace2 a b then 2 else 0)"
| "spaceWidth (a # b # c # _) =
     (if isSpace1 a then 1 else if isSpace2 a b then 2 else if isSpace3 a b c then 3 else 0)"

text \<open>The number of bytes of the white-space rune that ends the bytes, which are given
  last byte first; 0 when none does.\<close>

fun spaceWidthRev :: "int list \<Rightarrow> nat" where
  "spaceWidthRev [] = 0"
| "spaceWidthRev [a] = (if isSpace1 a then 1 else 0)"
| "spaceWidthRev [b, a] = (if isSpace1 b then 1 else if isSpace2 a b then 2 else 0)"
| "spaceWidthRev (c # b # a # _) =
     (if isSpace1 c then 1 else if isSpace2 b c then 2 else if isSpace3 a b c then 3 else 0)"

fun trimLeft :: "string \<Rightarrow> string" where
  "trimLeft [] = []"
| "trimLeft (c # cs) =
     (let n = spaceWidth (map byte (take 3 (c # cs)))
      in if n = 0 then c # cs else trimLeft (drop (n - 1) cs))"

text \<open>\<open>dropSpacesRev\<close> takes the string last byte first and removes the white space at
  the end of the string.\<close>

fun dropSpacesRev :: "string \<Rightarrow> string" where
  "dropSpacesRev [] = []"
| "dropSpacesRev (c # cs) =
     (let n = spaceWidthRev (map byte (take 3 (c # cs)))
      in if n = 0 then c # cs else dropSpacesRev (drop (n - 1) cs))"

definition trimRight :: "string \<Rightarrow> string" where
  "trimRight s = rev (dropSpacesRev (rev s))"

definition TrimSpace :: "string \<Rightarrow> string" where
  "TrimSpace s = trimRight (trimLeft s)"

subsection \<open>Decoding a line: \<open>json.Unmarshal\<close> into \<open>SubfinderJSONOutput\<close>\<close>

text \<open>
  \<open>json.Unmarshal\<close> belongs to Go's standard library (\<open>encoding/json\<close>, Go 1.21 in the
  Dockerfile). It is modelled for the one target type the program uses. It first checks
  that the whole text is one JSON value (\<open>checkValid\<close>); only then it decodes.
\<close>

record SubfinderJSONOutput =
  Host :: string
  Source :: string
  Input :: string

datatype json_error = SyntaxError | UnmarshalTypeError

paragraph \<open>UTF-8\<close>

definition isCont :: "int \<Rightarrow> bool" where
  "isCont b \<longleftrightarrow> 0x80 \<le> b \<and> b \<le> 0xBF"

text \<open>The length of the UTF-8 encoding that starts the bytes, as \<open>utf8.DecodeRune\<close>
  accepts it (shortest form, no surrogate, at most U+10FFFF); 0 when the bytes start with
  no valid encoding, where \<open>utf8.DecodeRune\<close> returns \<open>(RuneError, 1)\<close>.\<close>

fun runeLen :: "int list \<Rightarrow> nat" where
  "runeLen [] = 0"
| "runeLen (b0 # bs) =
     (if b0 < 0x80 then 1
      else if 0xC2 \<le> b0 \<and> b0 \<le> 0xDF then
        (case bs of b1 # _ \<Rightarrow> if isCont b1 then 2 else 0 | _ \<Rightarrow> 0)
      else if 0xE0 \<le> b0 \<and> b0 \<le> 0xEF then
        (case bs of
           b1 # b2 # _ \<Rightarrow>
             if (if b0 = 0xE0 then 0xA0 else 0x80) \<le> b1
                \<and> b1 \<le> (if b0 = 0xED then 0x9F else 0xBF) \<and> isCont b2
             then 3 else 0
         | _ \<Rightarrow> 0)
      else if 0xF0 \<le> b0 \<and> b0 \<le> 0xF4 then
        (case bs of
           b1 # b2 # b3 # _ \<Rightarrow>
             if (if b0 = 0xF0 then 0x90 else 0x80) \<le> b1
                \<and> b1 \<le> (if b0 = 0xF4 then 0x8F else 0xBF) \<and> isCont b2 \<and> isCont b3
             then 4 else 0
         | _ \<Rightarrow> 0)
      else 0)"

text \<open>U+FFFD, the replacement character, in UTF-8.\<close>

definition replacementChar :: string where
  "replacementChar = [CHR 0xEF, CHR 0xBF, CHR 0xBD]"

text \<open>\<open>utf8.EncodeRune\<close>: a surrogate or a value beyond U+10FFFF is written as U+FFFD.\<close>

definition encodeRune :: "int \<Rightarrow> string" where
  "encodeRune r =
     (if r < 0x80 then [char_of r]
      else if r < 0x800 then [char_of (0xC0 + r div 64), char_of (0x80 + r mod 64)]
      else if (0xD800 \<le> r \<and> r \<le> 0xDFFF) \<or> r > 0x10FFFF then replacementChar
      else if r < 0x10000 then
        [char_of (0xE0 + r div 4096), char_of (0x80 + (r div 64) mod 64),
         char_of (0x80 + r mod 64)]
      else
        [char_of (0xF0 + r div 262144), char_of (0x80 + (r div 4096) mod 64),
         char_of (0x80 + (r div 64) mod 64), char_of (0x80 + r mod 64)])"

paragraph \<open>String literals\<close>

definition dquote :: char where
  "dquote = CHR 0x22"

definition backslash :: char where
  "backslash = CHR 0x5C"

definition isDigit :: "char \<Rightarrow> bool" where
  "isDigit c \<longleftrightarrow> 0x30 \<le> byte c \<and> byte c \<le> 0x39"

definition hexValue :: "char \<Rightarrow> int option" where
  "hexValue c =
     (let b = byte c in
      if 0x30 \<le> b \<and> b \<le> 0x39 then Some (b - 0x30)
      else if 0x61 \<le> b \<and> b \<le> 0x66 then Some (b - 0x61 + 10)
      else if 0x41 \<le> b \<and> b \<le> 0x46 then Some (b - 0x41 + 10)
      else None)"

definition isHex :: "char \<Rightarrow> bool" where
  "isHex c \<longleftrightarrow> hexValue c \<noteq> None"

text \<open>The escapes of one character that the scanner accepts after a backslash
  (\<open>stateInStringEsc\<close>); \<open>u\<close> with four hexadecimal digits is the other escape.\<close>

definition isSimpleEscape :: "char \<Rightarrow> bool" where
  "isSimpleEscape e \<longleftrightarrow>
     e = CHR ''b'' \<or> e = CHR ''f'' \<or> e = CHR ''n'' \<or> e = CHR ''r'' \<or> e = CHR ''t''
     \<or> e = backslash \<or> e = CHR ''/'' \<or> e = dquote"

text \<open>The number of bytes of the character or escape that starts the inside of a string
  literal; \<open>None\<close> for a byte below 0x20 and for a wrong escape. Any byte from 0x20 on is
  accepted, valid UTF-8 or not.\<close>

definition stringItem :: "string \<Rightarrow> nat option" where
  "stringItem s =
     (case s of
        [] \<Rightarrow> None
      | c # cs \<Rightarrow>
          if c = backslash then
            (case cs of
               [] \<Rightarrow> None
             | e # r \<Rightarrow>
                 if isSimpleEscape e then Some 2
                 else if e = CHR ''u'' \<and> 4 \<le> length r \<and> list_all isHex (take 4 r) then Some 6
                 else None)
          else if byte c < 0x20 then None
          else Some 1)"

text \<open>\<open>scanString s\<close>: \<open>s\<close> follows an opening quote. The result is the number of bytes
  up to and with the closing quote; \<open>None\<close> when the literal is not closed or not valid.\<close>

fun scanString :: "string \<Rightarrow> nat option" where
  "scanString [] = None"
| "scanString (c # cs) =
     (if c = dquote then Some 1
      else case stringItem (c # cs) of
        None \<Rightarrow> None
      | Some k \<Rightarrow> map_option (\<lambda>n. n + k) (scanString (drop (k - 1) cs)))"

text \<open>\<open>getu4\<close>: the value of \<open>\uXXXX\<close> at the head of the bytes, \<open>None\<close> when the bytes do
  not start with such an escape.\<close>

definition getu4 :: "string \<Rightarrow> int option" where
  "getu4 s =
     (case s of
        b # u # h1 # h2 # h3 # h4 # _ \<Rightarrow>
          if b = backslash \<and> u = CHR ''u'' then
            (case (hexValue h1, hexValue h2, hexValue h3, hexValue h4) of
               (Some d1, Some d2, Some d3, Some d4) \<Rightarrow>
                 Some (((d1 * 16 + d2) * 16 + d3) * 16 + d4)
             | _ \<Rightarrow> None)
          else None
      | _ \<Rightarrow> None)"

definition escapedByte :: "char \<Rightarrow> char" where
  "escapedByte e =
     (if e = CHR ''b'' then CHR 0x08 else if e = CHR ''f'' then CHR 0x0C
      else if e = CHR ''n'' then CHR 0x0A else if e = CHR ''r'' then CHR 0x0D
      else if e = CHR ''t'' then CHR 0x09 else e)"

text \<open>\<open>unquote\<close> (Go's \<open>unquoteBytes\<close>) turns the inside of a string literal that the
  scanner accepted into the string it denotes: escapes are replaced, \<open>\uXXXX\<close> becomes
  the UTF-8 of the rune, two escapes that form a surrogate pair become one rune, a
  surrogate without its partner becomes U+FFFD, and every byte that is not part of valid
  UTF-8 becomes U+FFFD. \<open>unquoteItem c cs\<close> is one round of its loop on the input
  \<open>c # cs\<close>: the bytes written and the number of bytes read.\<close>

definition unquoteItem :: "char \<Rightarrow> string \<Rightarrow> string \<times> nat" where
  "unquoteItem c cs =
     (if c = backslash then
        (case getu4 (c # cs) of
           Some rr \<Rightarrow>
             (if 0xD800 \<le> rr \<and> rr \<le> 0xDFFF then
                (case getu4 (drop 5 cs) of
                   Some rr1 \<Rightarrow>
                     if rr < 0xDC00 \<and> 0xDC00 \<le> rr1 \<and> rr1 \<le> 0xDFFF
                     then (encodeRune ((rr - 0xD800) * 1024 + (rr1 - 0xDC00) + 0x10000), 12)
                     else (replacementChar, 6)
                 | None \<Rightarrow> (replacementChar, 6))
              else (encodeRune rr, 6))
         | None \<Rightarrow> (map escapedByte (take 1 cs), 2))
      else if byte c < 0x80 then ([c], 1)
      else
        (let n = runeLen (map byte (take 4 (c # cs)))
         in if n = 0 then (replacementChar, 1) else (take n (c # cs), n)))"

fun unquote :: "string \<Rightarrow> string" where
  "unquote [] = []"
| "unquote (c # cs) =
     (case unquoteItem c cs of (written, n) \<Rightarrow> written @ unquote (drop (n - 1) cs))"

paragraph \<open>Numbers\<close>

text \<open>The fraction and the exponent of a number: the bytes that follow it, \<open>None\<close> when
  a digit is missing after the point, after \<open>e\<close> or after the sign.\<close>

definition scanFraction :: "string \<Rightarrow> string option" where
  "scanFraction s =
     (case s of
        c # r \<Rightarrow>
          if c = CHR ''.'' then
            (case r of d # _ \<Rightarrow> if isDigit d then Some (dropWhile isDigit r) else None
             | [] \<Rightarrow> None)
          else Some s
      | [] \<Rightarrow> Some s)"

definition scanExponent :: "string \<Rightarrow> string option" where
  "scanExponent s =
     (case s of
        c # r \<Rightarrow>
          if c = CHR ''e'' \<or> c = CHR ''E'' then
            (let r1 = (case r of sg # r' \<Rightarrow> if sg = CHR ''+'' \<or> sg = CHR ''-'' then r' else r
                       | [] \<Rightarrow> r)
             in case r1 of d # _ \<Rightarrow> if isDigit d then Some (dropWhile isDigit r1) else None
                | [] \<Rightarrow> None)
          else Some s
      | [] \<Rightarrow> Some s)"

text \<open>\<open>scanNumber s\<close>: the number of bytes of the number that starts \<open>s\<close>: an optional
  minus, then \<open>0\<close> or a digit from 1 to 9 with more digits, then an optional fraction and
  an optional exponent; \<open>None\<close> when \<open>s\<close> starts with no number.\<close>

definition scanNumber :: "string \<Rightarrow> nat option" where
  "scanNumber s =
     (let s1 = (case s of c # r \<Rightarrow> if c = CHR ''-'' then r else s | [] \<Rightarrow> s) in
      case s1 of
        [] \<Rightarrow> None
      | d # r \<Rightarrow>
          if \<not> isDigit d then None
          else
            (let s2 = (if d = CHR ''0'' then r else dropWhile isDigit r) in
             case scanFraction s2 of
               None \<Rightarrow> None
             | Some s3 \<Rightarrow>
                 (case scanExponent s3 of
                    None \<Rightarrow> None
                  | Some s4 \<Rightarrow> Some (length s - length s4))))"

paragraph \<open>Tokens\<close>

datatype token =
  TBeginObject | TEndObject | TBeginArray | TEndArray | TColon | TComma
  | TString string | TNumber | TBool | TNull

text \<open>The white space of JSON: space, tab, carriage return, line feed.\<close>

definition isJSONSpace :: "char \<Rightarrow> bool" where
  "isJSONSpace c \<longleftrightarrow> c = CHR 0x20 \<or> c = CHR 0x09 \<or> c = CHR 0x0D \<or> c = CHR 0x0A"

text \<open>\<open>scanTokens\<close> cuts the text into tokens; \<open>None\<close> when some byte starts no token.
  A \<open>TString\<close> holds the inside of the literal as written.\<close>

fun scanTokens :: "string \<Rightarrow> token list option" where
  "scanTokens [] = Some []"
| "scanTokens (c # cs) =
     (if isJSONSpace c then scanTokens cs
      else if c = CHR ''{'' then map_option (Cons TBeginObject) (scanTokens cs)
      else if c = CHR ''}'' then map_option (Cons TEndObject) (scanTokens cs)
      else if c = CHR ''['' then map_option (Cons TBeginArray) (scanTokens cs)
      else if c = CHR '']'' then map_option (Cons TEndArray) (scanTokens cs)
      else if c = CHR '':'' then map_option (Cons TColon) (scanTokens cs)
      else if c = CHR '','' then map_option (Cons TComma) (scanTokens cs)
      else if c = dquote then
        (case scanString cs of
           None \<Rightarrow> None
         | Some n \<Rightarrow> map_option (Cons (TString (take (n - 1) cs))) (scanTokens (drop n cs)))
      else if c = CHR ''-'' \<or> isDigit c then
        (case scanNumber (c # cs) of
           None \<Rightarrow> None
         | Some n \<Rightarrow> map_option (Cons TNumber) (scanTokens (drop (n - 1) cs)))
      else if HasPrefix (c # cs) ''true'' then map_option (Cons TBool) (scanTokens (drop 3 cs))
      else if HasPrefix (c # cs) ''false'' then map_option (Cons TBool) (scanTokens (drop 4 cs))
      else if HasPrefix (c # cs) ''null'' then map_option (Cons TNull) (scanTokens (drop 3 cs))
      else None)"

paragraph \<open>Values\<close>

text \<open>A JSON value, as far as the decoder looks at it: the text of a string, the
  members of an object in the order of the text (with repeated keys), and for numbers
  and booleans their kind only.\<close>

datatype json =
  JNull | JBool | JNumber | JString string | JArray "json list"
  | JObject "(string \<times> json) list"

text \<open>The parser reads the tokens from left to right with a stack of the arrays and
  objects that are still open, as Go's scanner does with its \<open>parseState\<close>. An open
  array holds its elements so far, an open object its members so far and the key that
  waits for its value, both latest first. The states carry the names of the scanner's.\<close>

datatype frame = InArray "json list" | InObject "(string \<times> json) list" string

datatype state =
  BeginValue | BeginValueOrEmpty | BeginStringOrEmpty | BeginString | ObjectKey
  | EndValue | EndTop json

text \<open>The scanner refuses a text that nests arrays and objects deeper than this.\<close>

definition maxNestingDepth :: nat where
  "maxNestingDepth = 10000"

fun endValue :: "json \<Rightarrow> frame list \<Rightarrow> state \<times> frame list" where
  "endValue v [] = (EndTop v, [])"
| "endValue v (InArray vs # stack) = (EndValue, InArray (v # vs) # stack)"
| "endValue v (InObject ms key # stack) = (EndValue, InObject ((key, v) # ms) key # stack)"

definition valueMayStart :: "state \<Rightarrow> bool" where
  "valueMayStart st \<longleftrightarrow> st = BeginValue \<or> st = BeginValueOrEmpty"

fun step :: "token \<Rightarrow> state \<times> frame list \<Rightarrow> (state \<times> frame list) option" where
  "step TBeginArray (st, stack) =
     (if valueMayStart st \<and> length stack < maxNestingDepth
      then Some (BeginValueOrEmpty, InArray [] # stack) else None)"
| "step TBeginObject (st, stack) =
     (if valueMayStart st \<and> length stack < maxNestingDepth
      then Some (BeginStringOrEmpty, InObject [] [] # stack) else None)"
| "step (TString raw) (st, stack) =
     (if valueMayStart st then Some (endValue (JString (unquote raw)) stack)
      else if st = BeginStringOrEmpty \<or> st = BeginString then
        (case stack of
           InObject ms _ # stack' \<Rightarrow> Some (ObjectKey, InObject ms (unquote raw) # stack')
         | _ \<Rightarrow> None)
      else None)"
| "step TNumber (st, stack) = (if valueMayStart st then Some (endValue JNumber stack) else None)"
| "step TBool (st, stack) = (if valueMayStart st then Some (endValue JBool stack) else None)"
| "step TNull (st, stack) = (if valueMayStart st then Some (endValue JNull stack) else None)"
| "step TColon (st, stack) = (if st = ObjectKey then Some (BeginValue, stack) else None)"
| "step TComma (st, stack) =
     (if st = EndValue then
        (case stack of
           InArray _ # _ \<Rightarrow> Some (BeginValue, stack)
         | InObject _ _ # _ \<Rightarrow> Some (BeginString, stack)
         | [] \<Rightarrow> None)
      else None)"
| "step TEndArray (st, stack) =
     (if st = BeginValueOrEmpty \<or> st = EndValue then
        (case stack of
           InArray vs # stack' \<Rightarrow> Some (endValue (JArray (rev vs)) stack')
         | _ \<Rightarrow> None)
      else None)"
| "step TEndObject (st, stack) =
     (if st = BeginStringOrEmpty \<or> st = EndValue then
        (case stack of
           InObject ms _ # stack' \<Rightarrow> Some (endValue (JObject (rev ms)) stack')
         | _ \<Rightarrow> None)
      else None)"

fun steps :: "token list \<Rightarrow> state \<times> frame list \<Rightarrow> (state \<times> frame list) option" where
  "steps [] conf = Some conf"
| "steps (t # ts) conf = (case step t conf of None \<Rightarrow> None | Some conf' \<Rightarrow> steps ts conf')"

text \<open>The value that the whole text denotes; \<open>None\<close> where Go reports a syntax error.\<close>

definition parseJSON :: "string \<Rightarrow> json option" where
  "parseJSON data =
     (case scanTokens data of
        None \<Rightarrow> None
      | Some ts \<Rightarrow>
          (case steps ts (BeginValue, []) of
             Some (EndTop v, _) \<Rightarrow> Some v
           | _ \<Rightarrow> None))"

paragraph \<open>Filling the struct\<close>

text \<open>
  A key of the object selects the field whose JSON name it equals, upper and lower case
  taken as equal (\<open>foldName\<close>: Unicode's simple case folding, under which U+017F, the long
  s, is an \<open>s\<close> and U+212A, the Kelvin sign, a \<open>k\<close>). \<open>foldName\<close> here folds what can
  fold to an ASCII letter and leaves every other rune as it is: the result is only
  compared with the folded names of the three fields, which are ASCII.
\<close>

fun foldName :: "string \<Rightarrow> string" where
  "foldName [] = []"
| "foldName (c # cs) =
     (if 0x61 \<le> byte c \<and> byte c \<le> 0x7A then char_of (byte c - 0x20) # foldName cs
      else if c = CHR 0xC5 \<and> take 1 cs = [CHR 0xBF] then CHR ''S'' # foldName (drop 1 cs)
      else if c = CHR 0xE2 \<and> take 2 cs = [CHR 0x84, CHR 0xAA]
        then CHR ''K'' # foldName (drop 2 cs)
      else c # foldName cs)"

text \<open>Storing a value into a field of type \<open>string\<close>: a JSON string is stored, \<open>null\<close>
  leaves the field as it is, and any other value is a type error; the decoder notes the
  error, skips the value and goes on.\<close>

fun storeString :: "json \<Rightarrow> string \<Rightarrow> string \<times> bool" where
  "storeString (JString s) old = (s, False)"
| "storeString JNull old = (old, False)"
| "storeString _ old = (old, True)"

text \<open>One member of the object. The boolean of the pair says that a type error has been
  noted. A key that selects no field is skipped with its value.\<close>

definition storeMember ::
  "string \<times> json \<Rightarrow> SubfinderJSONOutput \<times> bool \<Rightarrow> SubfinderJSONOutput \<times> bool" where
  "storeMember m acc =
     (case (m, acc) of
        ((key, v), (out, failed)) \<Rightarrow>
          (let name = foldName key in
           if name = foldName ''host'' then
             (case storeString v (Host out) of (s, e) \<Rightarrow> (out\<lparr>Host := s\<rparr>, failed \<or> e))
           else if name = foldName ''source'' then
             (case storeString v (Source out) of (s, e) \<Rightarrow> (out\<lparr>Source := s\<rparr>, failed \<or> e))
           else if name = foldName ''input'' then
             (case storeString v (Input out) of (s, e) \<Rightarrow> (out\<lparr>Input := s\<rparr>, failed \<or> e))
           else (out, failed)))"

fun storeMembers ::
  "(string \<times> json) list \<Rightarrow> SubfinderJSONOutput \<times> bool \<Rightarrow> SubfinderJSONOutput \<times> bool" where
  "storeMembers [] acc = acc"
| "storeMembers (m # ms) acc = storeMembers ms (storeMember m acc)"

text \<open>
  \<open>Unmarshal data v\<close> is \<open>json.Unmarshal([]byte(data), &v)\<close>: the error (\<open>None\<close> for
  \<open>nil\<close>) and the struct after the call. A text that is not JSON leaves the struct
  untouched. The value \<open>null\<close> is accepted and changes nothing; an array, a string, a
  number or a boolean cannot be stored into a struct.
\<close>

definition Unmarshal ::
  "string \<Rightarrow> SubfinderJSONOutput \<Rightarrow> json_error option \<times> SubfinderJSONOutput" where
  "Unmarshal data v =
     (case parseJSON data of
        None \<Rightarrow> (Some SyntaxError, v)
      | Some JNull \<Rightarrow> (None, v)
      | Some (JObject ms) \<Rightarrow>
          (case storeMembers ms (v, False) of
             (out, failed) \<Rightarrow> (if failed then Some UnmarshalTypeError else None, out))
      | Some _ \<Rightarrow> (Some UnmarshalTypeError, v))"

subsection \<open>Requests, responses and the engine\<close>

record EnumerateRequest =
  Domain :: string
  Domains :: "string list"
  Options :: "APIOptions option"

record SubdomainResult =
  Subdomain :: string
  Sources :: "string list"
  SourceCount :: int

text \<open>\<open>EnumerateResponse\<close>. The handlers never assign \<open>Message\<close> and the map \<open>Sources\<close>
  (here \<open>SourcesMap\<close>, a list of pairs): both keep their zero value. The model stops at
  the value given to the JSON encoder; the encoder leaves out \<open>results\<close> when the list is
  empty (\<open>omitempty\<close>) and always writes \<open>count\<close>.\<close>

record EnumerateResponse =
  Success :: bool
  Message :: string
  Results :: "SubdomainResult list"
  Count :: int
  SourcesMap :: "(string \<times> string list) list"
  Duration :: string

text \<open>\<open>ErrorResponse\<close>: the fields \<open>Success\<close> (here \<open>ErrorSuccess\<close>) and \<open>Error\<close>.\<close>

record ErrorResponse =
  ErrorSuccess :: bool
  Error :: string

text \<open>What a handler writes: the status code (200 when \<open>WriteHeader\<close> is not called), the
  \<open>Content-Type\<close> header and the value given to the JSON encoder.\<close>

datatype body = ErrorBody ErrorResponse | EnumerateBody EnumerateResponse

record Response =
  StatusCode :: nat
  ContentType :: string
  Body :: body

text \<open>What a handler reads of the request: the method, and the result of
  \<open>json.NewDecoder(r.Body).Decode(&req)\<close>, \<open>None\<close> when it returns an error.\<close>

record Request =
  Method :: string
  Decoded :: "EnumerateRequest option"

text \<open>
  The enumeration engine (package \<open>runner\<close> of subfinder) is outside the program. A
  handler is given it as a pair of functions over a type \<open>'r\<close> of runners: \<open>NewRunner\<close>
  returns the error message or a runner; \<open>EnumerateSingleDomainWithCtx\<close> returns the
  runner after the call (its later answers may depend on the earlier calls), the bytes it
  has written to the buffer, and the error message if it returns an error. An error is read
  as its message, which is what \<open>%v\<close> prints.
\<close>

record 'r Engine =
  NewRunner :: "runner_Options \<Rightarrow> string + 'r"
  EnumerateSingleDomainWithCtx :: "'r \<Rightarrow> string \<Rightarrow> 'r \<times> string \<times> string option"

text \<open>The calls that leave the program, in their order: a handler returns them beside
  its response.\<close>

datatype event = CallNewRunner runner_Options | CallEnumerate string | LogPrintf string

definition sendError :: "string \<Rightarrow> nat \<Rightarrow> Response" where
  "sendError message statusCode =
     \<lparr>StatusCode = statusCode, ContentType = ''application/json'',
      Body = ErrorBody \<lparr>ErrorSuccess = False, Error = message\<rparr>\<rparr>"

definition sendResponse :: "EnumerateResponse \<Rightarrow> Response" where
  "sendResponse response =
     \<lparr>StatusCode = 200, ContentType = ''application/json'', Body = EnumerateBody response\<rparr>"

subsection \<open>The single-domain handler\<close>

text \<open>The zero value of \<open>var subfinderResult SubfinderJSONOutput\<close>, declared anew for
  every line.\<close>

definition zeroOutput :: SubfinderJSONOutput where
  "zeroOutput = \<lparr>Host = [], Source = [], Input = []\<rparr>"

text \<open>The loop over the lines of \<open>enumerateDomainHandler\<close> (lines 168-188), with the
  slice \<open>results\<close> as its state.\<close>

fun parseLines :: "string list \<Rightarrow> SubdomainResult list \<Rightarrow> SubdomainResult list" where
  "parseLines [] results = results"
| "parseLines (l # lines) results =
     (let line = TrimSpace l in
      if line \<noteq> [] \<and> line \<noteq> ''{}'' then
        (case Unmarshal line zeroOutput of
           (Some err, _) \<Rightarrow>
             parseLines lines
               (results @ [\<lparr>Subdomain = line, Sources = [''subfinder''], SourceCount = 1\<rparr>])
         | (None, subfinderResult) \<Rightarrow>
             parseLines lines
               (results @ [\<lparr>Subdomain = Host subfinderResult,
                            Sources = [Source subfinderResult], SourceCount = 1\<rparr>]))
      else parseLines lines results)"

text \<open>\<open>elapsed\<close> stands for \<open>time.Since(startTime).String()\<close>.\<close>

definition enumerateDomainHandler ::
  "'r Engine \<Rightarrow> string \<Rightarrow> Request \<Rightarrow> Response \<times> event list" where
  "enumerateDomainHandler engine elapsed r =
     (if Method r \<noteq> ''POST'' then (sendError ''Method not allowed'' 405, [])
      else case Decoded r of
        None \<Rightarrow> (sendError ''Invalid JSON payload'' 400, [])
      | Some req \<Rightarrow>
          if Domain req = [] then (sendError ''Domain is required'' 400, [])
          else if \<not> isValidDomain (Domain req) then
            (sendError ''Invalid domain format'' 400, [])
          else
            (let opts = buildOptions (Options req) in
             case NewRunner engine opts of
               Inl err \<Rightarrow>
                 (sendError (''Failed to create subfinder runner: '' @ err) 500,
                  [CallNewRunner opts])
             | Inr subfinder \<Rightarrow>
                 (case EnumerateSingleDomainWithCtx engine subfinder (Domain req) of
                    (_, output, Some err) \<Rightarrow>
                      (sendError (''Failed to enumerate subdomains: '' @ err) 500,
                       [CallNewRunner opts, CallEnumerate (Domain req)])
                  | (_, output, None) \<Rightarrow>
                      (let results = parseLines (Split (TrimSpace output) ''\<newline>'') [] in
                       (sendResponse
                          \<lparr>Success = True, Message = [], Results = results,
                           Count = int (length results), SourcesMap = [],
                           Duration = elapsed\<rparr>,
                        [CallNewRunner opts, CallEnumerate (Domain req)])))))"

subsection \<open>The batch handler\<close>

text \<open>The validation loop (lines 222-227): the first domain that is not valid, if any.\<close>

fun firstInvalid :: "string list \<Rightarrow> string option" where
  "firstInvalid [] = None"
| "firstInvalid (domain # domains) =
     (if \<not> isValidDomain domain then Some domain else firstInvalid domains)"

text \<open>The inner loop (lines 274-296), with \<open>allResults\<close> and \<open>totalCount\<close> as its
  state.\<close>

fun parseLinesBatch ::
  "string list \<Rightarrow> SubdomainResult list \<times> int \<Rightarrow> SubdomainResult list \<times> int" where
  "parseLinesBatch [] acc = acc"
| "parseLinesBatch (l # lines) (allResults, totalCount) =
     (let line = TrimSpace l in
      if line \<noteq> [] \<and> line \<noteq> ''{}'' then
        (case Unmarshal line zeroOutput of
           (Some err, _) \<Rightarrow>
             parseLinesBatch lines
               (allResults @ [\<lparr>Subdomain = line, Sources = [''subfinder''], SourceCount = 1\<rparr>],
                totalCount + 1)
         | (None, subfinderResult) \<Rightarrow>
             parseLinesBatch lines
               (allResults @ [\<lparr>Subdomain = Host subfinderResult,
                               Sources = [Source subfinderResult], SourceCount = 1\<rparr>],
                totalCount + 1))
      else parseLinesBatch lines (allResults, totalCount))"

text \<open>The loop over the domains (lines 264-297). Its state: the runner, \<open>allResults\<close>,
  \<open>totalCount\<close> and the calls made so far. A domain whose enumeration returns an error is
  logged and left (\<open>continue\<close>).\<close>

fun enumerateDomains ::
  "'r Engine \<Rightarrow> string list \<Rightarrow> 'r \<times> SubdomainResult list \<times> int \<times> event list
     \<Rightarrow> 'r \<times> SubdomainResult list \<times> int \<times> event list" where
  "enumerateDomains engine [] acc = acc"
| "enumerateDomains engine (domain # domains) (subfinder, allResults, totalCount, events) =
     (case EnumerateSingleDomainWithCtx engine subfinder domain of
        (subfinder', output, Some err) \<Rightarrow>
          enumerateDomains engine domains
            (subfinder', allResults, totalCount,
             events @ [CallEnumerate domain,
                       LogPrintf (''Failed to enumerate domain '' @ domain @ '': '' @ err)])
      | (subfinder', output, None) \<Rightarrow>
          (case parseLinesBatch (Split (TrimSpace output) ''\<newline>'') (allResults, totalCount) of
             (allResults', totalCount') \<Rightarrow>
               enumerateDomains engine domains
                 (subfinder', allResults', totalCount', events @ [CallEnumerate domain])))"

definition enumerateBatchHandler ::
  "'r Engine \<Rightarrow> string \<Rightarrow> Request \<Rightarrow> Response \<times> event list" where
  "enumerateBatchHandler engine elapsed r =
     (if Method r \<noteq> ''POST'' then (sendError ''Method not allowed'' 405, [])
      else case Decoded r of
        None \<Rightarrow> (sendError ''Invalid JSON payload'' 400, [])
      | Some req \<Rightarrow>
          if length (Domains req) = 0 then
            (sendError ''Domains array is required and cannot be empty'' 400, [])
          else
            (case firstInvalid (Domains req) of
               Some domain \<Rightarrow> (sendError (''Invalid domain format: '' @ domain) 400, [])
             | None \<Rightarrow>
                 (let opts = buildOptions (Options req) in
                  case NewRunner engine opts of
                    Inl err \<Rightarrow>
                      (sendError (''Failed to create subfinder runner: '' @ err) 500,
                       [CallNewRunner opts])
                  | Inr subfinder \<Rightarrow>
                      (case enumerateDomains engine (Domains req)
                              (subfinder, [], 0, [CallNewRunner opts]) of
                         (_, allResults, totalCount, events) \<Rightarrow>
                           (sendResponse
                              \<lparr>Success = True, Message = [], Results = allResults,
                               Count = totalCount, SourcesMap = [], Duration = elapsed\<rparr>,
                            events)))))"

subsection \<open>A test double of the engine\<close>

text \<open>An engine whose runner counts the calls made so far: \<open>answer n domain\<close> is what
  call number \<open>n\<close> (from 0) writes and returns for \<open>domain\<close>. Constructing the runner
  succeeds.\<close>

definition scriptedEngine :: "(nat \<Rightarrow> string \<Rightarrow> string \<times> string option) \<Rightarrow> nat Engine" where
  "scriptedEngine answer =
     \<lparr>NewRunner = (\<lambda>opts. Inr 0),
      EnumerateSingleDomainWithCtx = (\<lambda>n domain. (Suc n, answer n domain))\<rparr>"

subsection \<open>Notions used to state the properties\<close>

text \<open>The answers of the engine to the calls of a batch: what it writes and the error it
  returns for each domain of the list in turn, each call on the runner that the call
  before has left.\<close>

fun engineAnswers :: "'r Engine \<Rightarrow> 'r \<Rightarrow> string list \<Rightarrow> (string \<times> string option) list" where
  "engineAnswers engine subfinder [] = []"
| "engineAnswers engine subfinder (domain # domains) =
     (case EnumerateSingleDomainWithCtx engine subfinder domain of
        (subfinder', answer) \<Rightarrow> answer # engineAnswers engine subfinder' domains)"

text \<open>What the spec lets one domain of a batch contribute: the records of its output
  when the engine returns no error, nothing when it returns one.\<close>

definition domainResults :: "string \<times> string option \<Rightarrow> SubdomainResult list" where
  "domainResults answer =
     (case answer of
        (output, None) \<Rightarrow> parseLines (Split (TrimSpace output) ''\<newline>'') []
      | (output, Some err) \<Rightarrow> [])"

text \<open>The domain of a call of the engine's enumeration, among the calls of a handler.\<close>

definition enumerateCall :: "event \<Rightarrow> string option" where
  "enumerateCall e = (case e of CallEnumerate domain \<Rightarrow> Some domain | _ \<Rightarrow> None)"

text \<open>The nesting of a text: the largest number of arrays and objects that are open at
  the same time while its tokens are read from left to right, \<open>n\<close> of them being open
  before the first token. It is the length that the scanner's \<open>parseState\<close> reaches on
  the text when nothing limits it. \<open>nestingDepth\<close> is the nesting of a whole text; a
  text with a byte that starts no token has no tokens, and the nesting 0.\<close>

fun nesting :: "token list \<Rightarrow> nat \<Rightarrow> nat" where
  "nesting [] n = n"
| "nesting (t # ts) n =
     max n (nesting ts (if t = TBeginArray \<or> t = TBeginObject then Suc n
                        else if t = TEndArray \<or> t = TEndObject then n - 1
                        else n))"

definition nestingDepth :: "string \<Rightarrow> nat" where
  "nestingDepth data = (case scanTokens data of None \<Rightarrow> 0 | Some ts \<Rightarrow> nesting ts 0)"

text \<open>\<open>nested n\<close>: the empty array inside \<open>n\<close> further arrays, which is the value of
  \<open>n + 1\<close> opening brackets followed by as many closing ones.\<close>

fun nested :: "nat \<Rightarrow> json" where
  "nested 0 = JArray []"
| "nested (Suc n) = JArray [nested n]"

section \<open>Properties\<close>

declare foldName.simps [simp del]

subsection \<open>The library functions\<close>

text \<open>The model of the string functions agrees with the usual notions on lists, and
  splitting at a one-byte separator cuts the string into the pieces between the
  separators: joined again they give the string, and no piece holds the separator.\<close>

lemma HasPrefix_iff_prefix: "HasPrefix s pre \<longleftrightarrow> prefix pre s"
  unfolding HasPrefix_def
  by (metis append_eq_conv_conj prefix_def prefix_length_le take_is_prefix)

lemma HasSuffix_iff_suffix: "HasSuffix s suf \<longleftrightarrow> suffix suf s"
  unfolding HasSuffix_def
  by (metis suffix_length_le suffix_drop suffix_take append_take_drop_id append_eq_conv_conj)

lemma Contains_iff: "Contains s sub \<longleftrightarrow> (\<exists>u v. s = u @ sub @ v)"
proof (induction s)
  case Nil
  then show ?case by auto
next
  case (Cons c cs)
  show ?case
  proof
    assume "Contains (c # cs) sub"
    then consider "HasPrefix (c # cs) sub" | "Contains cs sub" by auto
    then show "\<exists>u v. c # cs = u @ sub @ v"
    proof cases
      case 1
      then obtain v where "c # cs = sub @ v" by (auto simp: HasPrefix_iff_prefix prefix_def)
      then have "c # cs = [] @ sub @ v" by simp
      then show ?thesis by blast
    next
      case 2
      then obtain u v where "cs = u @ sub @ v" using Cons.IH by auto
      then have "c # cs = (c # u) @ sub @ v" by simp
      then show ?thesis by blast
    qed
  next
    assume "\<exists>u v. c # cs = u @ sub @ v"
    then obtain u v where uv: "c # cs = u @ sub @ v" by auto
    show "Contains (c # cs) sub"
    proof (cases u)
      case Nil
      then have "prefix sub (c # cs)" using uv by (simp add: prefix_def)
      then show ?thesis by (simp add: HasPrefix_iff_prefix)
    next
      case (Cons a u')
      then have "cs = u' @ sub @ v" using uv by simp
      then have "Contains cs sub" using Cons.IH by blast
      then show ?thesis by simp
    qed
  qed
qed

lemma HasPrefix_one: "HasPrefix (x # xs) [c] \<longleftrightarrow> x = c"
  by (simp add: HasPrefix_def)

lemma splitFrom_join:
  "concat (map (\<lambda>p. p @ [c]) (splitFrom [c] piece s)) = piece @ s @ [c]"
  by (induction s arbitrary: piece) (simp_all add: HasPrefix_one)

lemma splitFrom_pieces:
  "c \<notin> set piece \<Longrightarrow> p \<in> set (splitFrom [c] piece s) \<Longrightarrow> c \<notin> set p"
proof (induction s arbitrary: piece)
  case Nil
  then show ?case by simp
next
  case (Cons a s)
  show ?case
  proof (cases "a = c")
    case True
    with Cons.prems have "p = piece \<or> p \<in> set (splitFrom [c] [] s)"
      by (simp add: HasPrefix_one)
    then show ?thesis
    proof
      assume "p = piece"
      with Cons.prems(1) show ?thesis by simp
    next
      assume "p \<in> set (splitFrom [c] [] s)"
      with Cons.IH [of "[]"] show ?thesis by simp
    qed
  next
    case False
    with Cons.prems have "p \<in> set (splitFrom [c] (piece @ [a]) s)"
      by (simp add: HasPrefix_one)
    moreover from False Cons.prems(1) have "c \<notin> set (piece @ [a])" by auto
    ultimately show ?thesis using Cons.IH by blast
  qed
qed

lemma Split_join: "concat (map (\<lambda>p. p @ [c]) (Split s [c])) = s @ [c]"
  by (simp add: Split_def splitFrom_join)

lemma Split_pieces: "p \<in> set (Split s [c]) \<Longrightarrow> c \<notin> set p"
  using splitFrom_pieces [of c "[]" p s] by (simp add: Split_def)

subsection \<open>The loops of the handlers\<close>

lemma parseLines_step: "parseLines (l # ls) acc = parseLines ls (acc @ parseLines [l] [])"
  by (simp add: Let_def split: prod.split option.split)

lemma parseLines_acc: "parseLines ls acc = acc @ parseLines ls []"
proof (induction ls arbitrary: acc)
  case Nil
  show ?case by simp
next
  case (Cons l ls)
  have "parseLines (l # ls) acc = parseLines ls (acc @ parseLines [l] [])"
    by (rule parseLines_step)
  also have "\<dots> = (acc @ parseLines [l] []) @ parseLines ls []"
    by (rule Cons.IH)
  also have "\<dots> = acc @ (parseLines [l] [] @ parseLines ls [])"
    by simp
  also have "parseLines [l] [] @ parseLines ls [] = parseLines ls ([] @ parseLines [l] [])"
    using Cons.IH [of "parseLines [l] []"] by simp
  also have "\<dots> = parseLines (l # ls) []"
    by (rule parseLines_step [symmetric])
  finally show ?case .
qed

lemma parseLines_Cons: "parseLines (l # ls) [] = parseLines [l] [] @ parseLines ls []"
  using parseLines_step [of l ls "[]"] parseLines_acc [of ls "parseLines [l] []"] by simp

lemma parseLines_append: "parseLines (xs @ ys) [] = parseLines xs [] @ parseLines ys []"
proof (induction xs)
  case Nil
  show ?case by simp
next
  case (Cons x xs)
  have "parseLines ((x # xs) @ ys) [] = parseLines [x] [] @ parseLines (xs @ ys) []"
    using parseLines_Cons [of x "xs @ ys"] by simp
  also have "\<dots> = parseLines [x] [] @ parseLines xs [] @ parseLines ys []"
    by (simp only: Cons.IH)
  also have "\<dots> = parseLines (x # xs) [] @ parseLines ys []"
    using parseLines_Cons [of x xs] by simp
  finally show ?case .
qed

lemma parseLines_concat: "parseLines ls [] = concat (map (\<lambda>l. parseLines [l] []) ls)"
proof (induction ls)
  case Nil
  show ?case by simp
next
  case (Cons l ls)
  then show ?case using parseLines_Cons [of l ls] by simp
qed

lemma parseLines_skip:
  "TrimSpace l = [] \<or> TrimSpace l = ''{}'' \<Longrightarrow> parseLines [l] [] = []"
  by (auto simp: Let_def)

lemma parseLines_structured:
  "TrimSpace l \<noteq> [] \<Longrightarrow> TrimSpace l \<noteq> ''{}'' \<Longrightarrow> Unmarshal (TrimSpace l) zeroOutput = (None, v)
     \<Longrightarrow> parseLines [l] [] = [\<lparr>Subdomain = Host v, Sources = [Source v], SourceCount = 1\<rparr>]"
  by (simp add: Let_def)

lemma parseLines_fallback:
  "TrimSpace l \<noteq> [] \<Longrightarrow> TrimSpace l \<noteq> ''{}'' \<Longrightarrow> Unmarshal (TrimSpace l) zeroOutput = (Some err, v)
     \<Longrightarrow> parseLines [l] [] = [\<lparr>Subdomain = TrimSpace l, Sources = [''subfinder''], SourceCount = 1\<rparr>]"
  by (simp add: Let_def)

lemma parseLinesBatch_eq:
  "parseLinesBatch ls (acc, n) = (acc @ parseLines ls [], n + int (length (parseLines ls [])))"
proof (induction ls arbitrary: acc n)
  case Nil
  show ?case by simp
next
  case (Cons l ls)
  have one: "parseLinesBatch (l # ls) (acc, n) =
      parseLinesBatch ls (acc @ parseLines [l] [], n + int (length (parseLines [l] [])))"
    by (simp add: Let_def split: prod.split option.split)
  show ?case
    unfolding one Cons.IH using parseLines_Cons [of l ls] by simp
qed

lemma parseLinesBatch_results: "fst (parseLinesBatch lines ([], 0)) = parseLines lines []"
  by (simp add: parseLinesBatch_eq)

lemma parseLinesBatch_one:
  "parseLinesBatch [l] (allResults, totalCount)
     = (allResults @ parseLines [l] [], totalCount + int (length (parseLines [l] [])))"
  by (rule parseLinesBatch_eq)

lemma parseLines_single_source:
  "x \<in> set (parseLines ls acc) \<Longrightarrow> x \<in> set acc \<or> (length (Sources x) = 1 \<and> SourceCount x = 1)"
proof (induction ls arbitrary: acc)
  case Nil
  then show ?case by simp
next
  case (Cons l ls)
  then show ?case
    by (fastforce simp: Let_def split: if_splits prod.splits option.splits)
qed

lemma parseLines_one_source:
  "x \<in> set (parseLines ls []) \<Longrightarrow> length (Sources x) = 1 \<and> SourceCount x = 1"
  using parseLines_single_source [of x ls "[]"] by simp

lemma domainResults_single_source:
  "x \<in> set (concat (map domainResults answers)) \<Longrightarrow> length (Sources x) = 1 \<and> SourceCount x = 1"
proof -
  assume "x \<in> set (concat (map domainResults answers))"
  then obtain a where "a \<in> set answers" and x: "x \<in> set (domainResults a)" by auto
  obtain out err where a: "a = (out, err)" by (cases a)
  show ?thesis
  proof (cases err)
    case None
    with x a have "x \<in> set (parseLines (Split (TrimSpace out) ''\<newline>'') [])"
      by (simp add: domainResults_def)
    then show ?thesis by (rule parseLines_one_source)
  next
    case (Some e)
    with x a show ?thesis by (simp add: domainResults_def)
  qed
qed

lemma enumerateDomains_eq:
  "enumerateDomains engine ds (r, acc, n, ev) = (r', acc', n', ev') \<Longrightarrow>
     acc' = acc @ concat (map domainResults (engineAnswers engine r ds))
     \<and> n' = n + int (length (concat (map domainResults (engineAnswers engine r ds))))
     \<and> List.map_filter enumerateCall ev' = List.map_filter enumerateCall ev @ ds
     \<and> (\<exists>more. ev' = ev @ more)"
proof (induction ds arbitrary: r acc n ev)
  case Nil
  then show ?case by simp
next
  case (Cons d ds)
  obtain r1 out err where call: "EnumerateSingleDomainWithCtx engine r d = (r1, out, err)"
    by (cases "EnumerateSingleDomainWithCtx engine r d") auto
  show ?case
  proof (cases err)
    case None
    let ?rs = "parseLines (Split (TrimSpace out) ''\<newline>'') []"
    from Cons.prems call None
    have "enumerateDomains engine ds (r1, acc @ ?rs, n + int (length ?rs), ev @ [CallEnumerate d])
            = (r', acc', n', ev')"
      by (simp add: parseLinesBatch_eq)
    from Cons.IH [OF this] call None show ?thesis
      by (auto simp: domainResults_def List.map_filter_def enumerateCall_def)
  next
    case (Some e)
    from Cons.prems call Some
    have "enumerateDomains engine ds (r1, acc, n,
             ev @ [CallEnumerate d, LogPrintf (''Failed to enumerate domain '' @ d @ '': '' @ e)])
            = (r', acc', n', ev')"
      by simp
    from Cons.IH [OF this] call Some show ?thesis
      by (auto simp: domainResults_def List.map_filter_def enumerateCall_def)
  qed
qed

lemma enumerateDomains_results:
  assumes "enumerateDomains engine ds (r, [], 0, ev) = (r', acc', n', ev')"
  shows "(\<exists>answers. acc' = concat (map domainResults answers)) \<and> n' = int (length acc')"
  using enumerateDomains_eq [OF assms] by auto

lemma enumerateDomains_events:
  "enumerateDomains engine ds (r, acc, n, ev) = (r', acc', n', ev') \<Longrightarrow>
     CallNewRunner opts \<in> set ev' \<Longrightarrow> CallNewRunner opts \<in> set ev"
proof (induction ds arbitrary: r acc n ev)
  case Nil
  then show ?case by simp
next
  case (Cons d ds)
  obtain r1 out err where call: "EnumerateSingleDomainWithCtx engine r d = (r1, out, err)"
    by (cases "EnumerateSingleDomainWithCtx engine r d") auto
  show ?case
  proof (cases err)
    case None
    obtain acc1 n1 where pl: "parseLinesBatch (Split (TrimSpace out) ''\<newline>'') (acc, n) = (acc1, n1)"
      by (cases "parseLinesBatch (Split (TrimSpace out) ''\<newline>'') (acc, n)")
    from Cons.prems(1) call None pl
    have "enumerateDomains engine ds (r1, acc1, n1, ev @ [CallEnumerate d]) = (r', acc', n', ev')"
      by simp
    from Cons.IH [OF this Cons.prems(2)] show ?thesis by simp
  next
    case (Some e)
    from Cons.prems(1) call Some
    have "enumerateDomains engine ds (r1, acc, n,
             ev @ [CallEnumerate d, LogPrintf (''Failed to enumerate domain '' @ d @ '': '' @ e)])
            = (r', acc', n', ev')"
      by simp
    from Cons.IH [OF this Cons.prems(2)] show ?thesis by simp
  qed
qed

lemma firstInvalid_None: "firstInvalid ds = None \<longleftrightarrow> (\<forall>d\<in>set ds. isValidDomain d)"
  by (induction ds) auto

lemma firstInvalid_Some:
  "firstInvalid ds = Some d \<Longrightarrow> d \<in> set ds \<and> \<not> isValidDomain d"
  by (induction ds) (auto split: if_splits)

lemma partsOk_iff: "partsOk ps \<longleftrightarrow> (\<forall>p\<in>set ps. length p \<noteq> 0 \<and> length p \<le> 63)"
  by (induction ps) auto

lemma single_success_body:
  assumes "Body (fst (enumerateDomainHandler engine elapsed r)) = EnumerateBody response"
  shows "\<exists>output. Results response = parseLines (Split (TrimSpace output) ''\<newline>'') []
           \<and> Count response = int (length (Results response))"
  using assms
  by (auto simp: enumerateDomainHandler_def sendError_def sendResponse_def Let_def
           split: if_splits option.splits sum.splits prod.splits)

lemma batch_success_body:
  assumes "Body (fst (enumerateBatchHandler engine elapsed r)) = EnumerateBody response"
  shows "\<exists>answers. Results response = concat (map domainResults answers)
           \<and> Count response = int (length (Results response))"
  using assms
  by (auto simp: enumerateBatchHandler_def sendError_def sendResponse_def Let_def
           split: if_splits option.splits sum.splits prod.splits
           dest!: enumerateDomains_results)

lemma single_runner_options:
  assumes "CallNewRunner opts \<in> set (snd (enumerateDomainHandler engine elapsed r))"
  shows "\<exists>req. Decoded r = Some req \<and> opts = buildOptions (Options req)"
  using assms
  by (auto simp: enumerateDomainHandler_def Let_def
           split: if_splits option.splits sum.splits prod.splits)

lemma batch_runner_options:
  assumes "CallNewRunner opts \<in> set (snd (enumerateBatchHandler engine elapsed r))"
  shows "\<exists>req. Decoded r = Some req \<and> opts = buildOptions (Options req)"
  using assms
  by (auto simp: enumerateBatchHandler_def Let_def
           split: if_splits option.splits sum.splits prod.splits
           dest!: enumerateDomains_events)

subsection \<open>Decoding\<close>

lemma storeString_accepts:
  "x = JNull \<or> (\<exists>s. x = JString s) \<Longrightarrow> snd (storeString x old) = False"
  by auto

lemma field_names_differ:
  "foldName ''source'' \<noteq> foldName ''host''" "foldName ''input'' \<noteq> foldName ''host''"
  by code_simp+

lemma storeMember_accepts:
  assumes "foldName key \<in> {foldName ''host'', foldName ''source'', foldName ''input''}
             \<longrightarrow> x = JNull \<or> (\<exists>s. x = JString s)"
  shows "snd (storeMember (key, x) (out, failed)) = failed"
  using assms by (auto simp: storeMember_def Let_def split: prod.splits)

lemma storeMember_keeps_Host:
  assumes "foldName key \<noteq> foldName ''host''"
  shows "Host (fst (storeMember (key, x) (out, failed))) = Host out"
  using assms by (auto simp: storeMember_def Let_def split: prod.splits)

lemma storeMembers_accepts:
  assumes "\<forall>(key, x)\<in>set ms.
             foldName key \<in> {foldName ''host'', foldName ''source'', foldName ''input''}
             \<longrightarrow> x = JNull \<or> (\<exists>s. x = JString s)"
  shows "snd (storeMembers ms (out, failed)) = failed"
  using assms
proof (induction ms arbitrary: out failed)
  case Nil
  show ?case by simp
next
  case (Cons m ms)
  obtain key x where m: "m = (key, x)" by (cases m)
  obtain out' failed' where st: "storeMember (key, x) (out, failed) = (out', failed')"
    by (cases "storeMember (key, x) (out, failed)")
  from Cons.prems m have "foldName key \<in> {foldName ''host'', foldName ''source'', foldName ''input''}
             \<longrightarrow> x = JNull \<or> (\<exists>s. x = JString s)" by auto
  from storeMember_accepts [OF this, of out failed] st have "failed' = failed" by simp
  moreover from Cons.prems have "\<forall>(key, x)\<in>set ms.
             foldName key \<in> {foldName ''host'', foldName ''source'', foldName ''input''}
             \<longrightarrow> x = JNull \<or> (\<exists>s. x = JString s)" by auto
  from Cons.IH [OF this, of out' failed'] have "snd (storeMembers ms (out', failed')) = failed'" .
  ultimately show ?case using m st by simp
qed

lemma storeMembers_keeps_Host:
  assumes "\<forall>(key, x)\<in>set ms. foldName key \<noteq> foldName ''host''"
  shows "Host (fst (storeMembers ms (out, failed))) = Host out"
  using assms
proof (induction ms arbitrary: out failed)
  case Nil
  show ?case by simp
next
  case (Cons m ms)
  obtain key x where m: "m = (key, x)" by (cases m)
  obtain out' failed' where st: "storeMember (key, x) (out, failed) = (out', failed')"
    by (cases "storeMember (key, x) (out, failed)")
  from Cons.prems m have "foldName key \<noteq> foldName ''host''" by auto
  from storeMember_keeps_Host [OF this, of x out failed] st have "Host out' = Host out" by simp
  moreover from Cons.prems have "\<forall>(key, x)\<in>set ms. foldName key \<noteq> foldName ''host''" by auto
  from Cons.IH [OF this, of out' failed'] have "Host (fst (storeMembers ms (out', failed'))) = Host out'" .
  ultimately show ?case using m st by simp
qed

lemma fixture_line:
  \<open>parseLines [''{"host":"api.example.com","source":"crtsh","input":"example.com"}''] []
     = [\<lparr>Subdomain = ''api.example.com'', Sources = [''crtsh''], SourceCount = 1\<rparr>]\<close>
  by code_simp

lemma malformed_line:
  "parseLines [''not-json-and-not-domain-like''] []
     = [\<lparr>Subdomain = ''not-json-and-not-domain-like'', Sources = [''subfinder''],
         SourceCount = 1\<rparr>]"
  by code_simp

text \<open>A member that is stored into a field and holds neither a string nor \<open>null\<close> is a
  type error, and the error stays noted to the end of the object.\<close>

lemma storeString_rejects:
  "x \<noteq> JNull \<Longrightarrow> \<forall>s. x \<noteq> JString s \<Longrightarrow> storeString x old = (old, True)"
  by (cases x) auto

lemma storeMember_rejects:
  assumes "foldName key \<in> {foldName ''host'', foldName ''source'', foldName ''input''}"
    and "x \<noteq> JNull" and "\<forall>s. x \<noteq> JString s"
  shows "snd (storeMember (key, x) (out, failed)) = True"
proof -
  have r: "storeString x old = (old, True)" for old
    using assms(2,3) by (rule storeString_rejects)
  consider "foldName key = foldName ''host''"
    | "foldName key \<noteq> foldName ''host''" "foldName key = foldName ''source''"
    | "foldName key \<noteq> foldName ''host''" "foldName key \<noteq> foldName ''source''"
      "foldName key = foldName ''input''"
    using assms(1) by blast
  then show ?thesis
    by cases (simp_all add: storeMember_def Let_def r)
qed

lemma storeMember_stays_failed: "snd (storeMember m (out, True)) = True"
  by (cases m) (auto simp: storeMember_def Let_def split: prod.splits)

lemma storeMembers_stays_failed: "snd (storeMembers ms (out, True)) = True"
proof (induction ms arbitrary: out)
  case Nil
  show ?case by simp
next
  case (Cons m ms)
  obtain out' failed' where st: "storeMember m (out, True) = (out', failed')"
    by (cases "storeMember m (out, True)")
  with storeMember_stays_failed [of m out] have "failed' = True" by simp
  with st Cons.IH [of out'] show ?case by simp
qed

lemma storeMembers_rejects:
  assumes "\<exists>(key, x)\<in>set ms.
             foldName key \<in> {foldName ''host'', foldName ''source'', foldName ''input''}
             \<and> x \<noteq> JNull \<and> (\<forall>s. x \<noteq> JString s)"
  shows "snd (storeMembers ms (out, failed)) = True"
  using assms
proof (induction ms arbitrary: out failed)
  case Nil
  then show ?case by simp
next
  case (Cons m ms)
  obtain key x where m: "m = (key, x)" by (cases m)
  obtain out' failed' where st: "storeMember (key, x) (out, failed) = (out', failed')"
    by (cases "storeMember (key, x) (out, failed)")
  show ?case
  proof (cases "foldName key \<in> {foldName ''host'', foldName ''source'', foldName ''input''}
             \<and> x \<noteq> JNull \<and> (\<forall>s. x \<noteq> JString s)")
    case True
    with storeMember_rejects [of key x out failed] st have "failed' = True" by simp
    with m st storeMembers_stays_failed [of ms out'] show ?thesis by simp
  next
    case False
    with Cons.prems m have "\<exists>(key, x)\<in>set ms.
             foldName key \<in> {foldName ''host'', foldName ''source'', foldName ''input''}
             \<and> x \<noteq> JNull \<and> (\<forall>s. x \<noteq> JString s)" by auto
    from Cons.IH [OF this, of out' failed'] m st show ?thesis by simp
  qed
qed

lemma parseLines_at:
  "parseLines (before @ [l] @ after) []
     = parseLines before [] @ parseLines [l] [] @ parseLines after []"
  by (simp only: parseLines_append)

text \<open>The scanner's stack follows the brackets of the text, and never grows beyond
  \<open>maxNestingDepth\<close>: a text with a deeper nesting is refused.\<close>

lemma endValue_length: "length (snd (endValue v stack)) = length stack"
  by (cases "(v, stack)" rule: endValue.cases) simp_all

lemma endValue_length': "endValue v stack = (st', stack') \<Longrightarrow> length stack' = length stack"
  using endValue_length [of v stack] by simp

lemma step_length:
  assumes "step t (st, stack) = Some (st', stack')"
  shows "length stack' =
           (if t = TBeginArray \<or> t = TBeginObject then Suc (length stack)
            else if t = TEndArray \<or> t = TEndObject then length stack - 1
            else length stack)"
    and "length stack \<le> maxNestingDepth \<Longrightarrow> length stack' \<le> maxNestingDepth"
  using assms
  by (cases t; auto split: if_splits list.splits frame.splits dest: endValue_length')+

lemma steps_nesting:
  "steps ts (st, stack) = Some conf' \<Longrightarrow> length stack \<le> maxNestingDepth
   \<Longrightarrow> nesting ts (length stack) \<le> maxNestingDepth"
proof (induction ts arbitrary: st stack)
  case Nil
  then show ?case by simp
next
  case (Cons t ts)
  from Cons.prems(1) obtain st' stack' where 1: "step t (st, stack) = Some (st', stack')"
    and 2: "steps ts (st', stack') = Some conf'"
    by (auto split: option.splits)
  from step_length [OF 1] Cons.prems(2)
  have 3: "length stack' =
           (if t = TBeginArray \<or> t = TBeginObject then Suc (length stack)
            else if t = TEndArray \<or> t = TEndObject then length stack - 1
            else length stack)"
    and 4: "length stack' \<le> maxNestingDepth"
    by simp_all
  from Cons.IH [OF 2 4] have "nesting ts (length stack') \<le> maxNestingDepth" .
  with 3 Cons.prems(2) show ?case by simp
qed

lemma parseJSON_nesting: "maxNestingDepth < nestingDepth data \<Longrightarrow> parseJSON data = None"
proof (cases "scanTokens data")
  case None
  then show ?thesis by (simp add: parseJSON_def)
next
  case (Some ts)
  assume "maxNestingDepth < nestingDepth data"
  with Some have deep: "maxNestingDepth < nesting ts 0" by (simp add: nestingDepth_def)
  have "steps ts (BeginValue, []) = None"
  proof (cases "steps ts (BeginValue, [])")
    case None
    then show ?thesis .
  next
    case (Some conf')
    from steps_nesting [OF this] deep show ?thesis by simp
  qed
  with Some show ?thesis by (simp add: parseJSON_def)
qed

text \<open>An object whose one member holds arrays inside arrays, \<open>n\<close> deep: its tokens, its
  nesting, and its value when the nesting is within the limit. White space is trimmed
  from neither end of it.\<close>

lemma trimLeft_ascii:
  "byte c < 0x80 \<Longrightarrow> \<not> isSpace1 (byte c) \<Longrightarrow> trimLeft (c # cs) = c # cs"
  by (cases "map byte (take 3 (c # cs))" rule: spaceWidth.cases)
     (auto simp: isSpace2_def isSpace3_def)

lemma dropSpacesRev_ascii:
  "byte c < 0x80 \<Longrightarrow> \<not> isSpace1 (byte c) \<Longrightarrow> dropSpacesRev (c # cs) = c # cs"
  by (cases "map byte (take 3 (c # cs))" rule: spaceWidthRev.cases)
     (auto simp: isSpace2_def isSpace3_def)

lemma TrimSpace_ascii:
  assumes "byte c < 0x80" "\<not> isSpace1 (byte c)" "byte d < 0x80" "\<not> isSpace1 (byte d)"
  shows "TrimSpace (c # cs @ [d]) = c # cs @ [d]"
proof -
  have "trimLeft (c # cs @ [d]) = c # cs @ [d]"
    using assms(1,2) by (rule trimLeft_ascii)
  moreover have "dropSpacesRev (d # rev cs @ [c]) = d # rev cs @ [c]"
    using assms(3,4) by (rule dropSpacesRev_ascii)
  ultimately show ?thesis by (simp add: TrimSpace_def trimRight_def del: trimLeft.simps dropSpacesRev.simps)
qed

lemma scanTokens_opens:
  "scanTokens (replicate n (CHR ''['') @ cs)
     = map_option (append (replicate n TBeginArray)) (scanTokens cs)"
  by (induction n) (simp_all add: isJSONSpace_def option.map_comp comp_def option.map_ident)

lemma scanTokens_closes:
  "scanTokens (replicate n (CHR '']'') @ cs)
     = map_option (append (replicate n TEndArray)) (scanTokens cs)"
  by (induction n) (simp_all add: isJSONSpace_def option.map_comp comp_def option.map_ident)

lemma nesting_ge: "n \<le> nesting ts n"
  by (cases ts) simp_all

lemma nesting_opens: "n + k \<le> nesting (replicate k TBeginArray @ ts) n"
proof (induction k arbitrary: n)
  case 0
  then show ?case by (simp add: nesting_ge)
next
  case (Suc k)
  from Suc [of "Suc n"] show ?case by simp
qed

lemma deep_object_tokens:
  \<open>scanTokens (''{"a":'' @ replicate n (CHR ''['') @ replicate n (CHR '']'') @ ''}'')
     = Some (TBeginObject # TString ''a'' # TColon
             # replicate n TBeginArray @ replicate n TEndArray @ [TEndObject])\<close>
proof -
  have "scanTokens ''}'' = Some [TEndObject]" by code_simp
  then have "scanTokens (replicate n (CHR ''['') @ replicate n (CHR '']'') @ ''}'')
      = Some (replicate n TBeginArray @ replicate n TEndArray @ [TEndObject])"
    by (simp only: scanTokens_opens scanTokens_closes option.map)
  moreover have "scanString (CHR ''a'' # dquote # cs) = Some 2" for cs
    by (simp add: stringItem_def dquote_def backslash_def byte_def)
  moreover have "isJSONSpace c \<longleftrightarrow> c = CHR 0x20 \<or> c = CHR 0x09 \<or> c = CHR 0x0D \<or> c = CHR 0x0A" for c
    by (simp add: isJSONSpace_def)
  ultimately have "scanTokens (CHR ''{'' # dquote # CHR ''a'' # dquote # CHR '':''
        # replicate n (CHR ''['') @ replicate n (CHR '']'') @ ''}'')
      = Some (TBeginObject # TString ''a'' # TColon
             # replicate n TBeginArray @ replicate n TEndArray @ [TEndObject])"
    by (simp add: dquote_def)
  then show ?thesis by (simp add: dquote_def)
qed

lemma nesting_member: "nesting ts 1 \<le> nesting (TBeginObject # TString key # TColon # ts) 0"
  by (simp add: max_def)

lemma deep_object_nesting:
  \<open>n < nestingDepth (''{"a":'' @ replicate n (CHR ''['') @ replicate n (CHR '']'') @ ''}'')\<close>
proof -
  have "1 + n \<le> nesting (replicate n TBeginArray @ replicate n TEndArray @ [TEndObject]) 1"
    by (rule nesting_opens)
  also have "\<dots> \<le> nesting (TBeginObject # TString ''a'' # TColon
      # replicate n TBeginArray @ replicate n TEndArray @ [TEndObject]) 0"
    by (rule nesting_member)
  finally have "1 + n \<le> nesting (TBeginObject # TString ''a'' # TColon
      # replicate n TBeginArray @ replicate n TEndArray @ [TEndObject]) 0" .
  moreover have \<open>nestingDepth
        (''{"a":'' @ replicate n (CHR ''['') @ replicate n (CHR '']'') @ ''}'')
      = nesting (TBeginObject # TString ''a'' # TColon
          # replicate n TBeginArray @ replicate n TEndArray @ [TEndObject]) 0\<close>
    by (simp only: nestingDepth_def deep_object_tokens option.case)
  ultimately show ?thesis by arith
qed

lemma deep_object_trimmed:
  \<open>TrimSpace (''{"a":'' @ replicate n (CHR ''['') @ replicate n (CHR '']'') @ ''}'')
     = ''{"a":'' @ replicate n (CHR ''['') @ replicate n (CHR '']'') @ ''}''\<close>
  using TrimSpace_ascii [of "CHR ''{''" "CHR ''}''"
      \<open>''"a":'' @ replicate n (CHR ''['') @ replicate n (CHR '']'')\<close>]
  by (simp add: byte_def isSpace1_def)

lemma deep_object_not_skipped:
  \<open>''{"a":'' @ replicate n (CHR ''['') @ replicate n (CHR '']'') @ ''}'' \<noteq> []
   \<and> ''{"a":'' @ replicate n (CHR ''['') @ replicate n (CHR '']'') @ ''}'' \<noteq> ''{}''\<close>
  by simp

lemma steps_opens:
  "valueMayStart st \<Longrightarrow> length stack + Suc k \<le> maxNestingDepth
   \<Longrightarrow> steps (replicate (Suc k) TBeginArray @ ts) (st, stack)
       = steps ts (BeginValueOrEmpty, replicate (Suc k) (InArray []) @ stack)"
proof (induction k arbitrary: st stack)
  case 0
  then show ?case by simp
next
  case (Suc k)
  have "valueMayStart BeginValueOrEmpty" by (simp add: valueMayStart_def)
  moreover from Suc.prems(2) have "length (InArray [] # stack) + Suc k \<le> maxNestingDepth"
    by simp
  ultimately have "steps (replicate (Suc k) TBeginArray @ ts) (BeginValueOrEmpty, InArray [] # stack)
      = steps ts (BeginValueOrEmpty, replicate (Suc k) (InArray []) @ InArray [] # stack)"
    by (rule Suc.IH)
  with Suc.prems show ?case by (simp add: replicate_app_Cons_same)
qed

lemma steps_closes:
  "steps (replicate k TEndArray @ ts) (endValue (nested m) (replicate k (InArray []) @ stack))
     = steps ts (endValue (nested (m + k)) stack)"
proof (induction k arbitrary: m)
  case 0
  then show ?case by simp
next
  case (Suc k)
  from Suc [of "Suc m"] show ?case by simp
qed

lemma steps_arrays:
  assumes "valueMayStart st" "length stack + Suc k \<le> maxNestingDepth"
  shows "steps (replicate (Suc k) TBeginArray @ replicate (Suc k) TEndArray @ ts) (st, stack)
           = steps ts (endValue (nested k) stack)"
proof -
  have "steps (replicate (Suc k) TBeginArray @ replicate (Suc k) TEndArray @ ts) (st, stack)
      = steps (replicate (Suc k) TEndArray @ ts)
          (BeginValueOrEmpty, replicate (Suc k) (InArray []) @ stack)"
    using assms by (rule steps_opens)
  also have "\<dots> = steps (replicate k TEndArray @ ts)
      (endValue (nested 0) (replicate k (InArray []) @ stack))"
    by simp
  also have "\<dots> = steps ts (endValue (nested (0 + k)) stack)"
    by (rule steps_closes)
  finally show ?thesis by simp
qed

lemma nested_object_parses:
  assumes "Suc (Suc k) \<le> maxNestingDepth"
  shows \<open>parseJSON (''{"a":'' @ replicate (Suc k) (CHR ''['') @ replicate (Suc k) (CHR '']'') @ ''}'')
     = Some (JObject [(''a'', nested k)])\<close>
proof -
  have q: "unquote ''a'' = ''a''" by code_simp
  have "steps (TBeginObject # TString ''a'' # TColon
      # replicate (Suc k) TBeginArray @ replicate (Suc k) TEndArray @ [TEndObject]) (BeginValue, [])
    = steps (replicate (Suc k) TBeginArray @ replicate (Suc k) TEndArray @ [TEndObject])
        (BeginValue, [InObject [] ''a''])"
    by (simp add: valueMayStart_def maxNestingDepth_def q del: replicate.simps unquote.simps)
  also have "\<dots> = steps [TEndObject] (endValue (nested k) [InObject [] ''a''])"
    using assms by (intro steps_arrays) (simp_all add: valueMayStart_def)
  also have "\<dots> = Some (EndTop (JObject [(''a'', nested k)]), [])"
    by simp
  finally show ?thesis
    by (simp only: parseJSON_def deep_object_tokens option.case prod.case state.case)
qed

lemma object_at_the_limit_parses:
  assumes "0 < n" "Suc n \<le> maxNestingDepth"
  shows \<open>parseJSON (''{"a":'' @ replicate n (CHR ''['') @ replicate n (CHR '']'') @ ''}'')
     = Some (JObject [(''a'', nested (n - 1))])\<close>
proof -
  from assms(1) obtain k where n: "n = Suc k" by (cases n) auto
  with assms(2) have "Suc (Suc k) \<le> maxNestingDepth" by simp
  from nested_object_parses [OF this] n show ?thesis by (simp del: replicate.simps)
qed

lemma buildOptions_Some:
  "buildOptions (Some u) =
     \<lparr>opt_Threads = (if Threads u > 0 then Threads u else 10),
      opt_Timeout = (if Timeout u > 0 then Timeout u else 30),
      opt_MaxEnumerationTime = (if MaxEnumerationTime u > 0 then MaxEnumerationTime u else 10),
      opt_JSON = True, opt_All = All u, opt_OnlyRecursive = OnlyRecursive u\<rparr>"
  by (simp add: buildOptions_def overrideOptions_def defaultOptions_def Let_def)

lemma buildOptions_JSON: "opt_JSON (buildOptions reqOptions)"
  by (cases reqOptions) (simp_all add: buildOptions_def overrideOptions_def defaultOptions_def Let_def)

subsection \<open>Domain validation\<close>

text \<open>
  C4. The Domain Validator rejects a string exactly when one of its rejection conditions
  holds: the length is 0 or above 253, the string contains \<open>..\<close>, it starts or ends
  with a dot, it splits at the dots into fewer than 2 labels, or some label is empty or
  longer than 63; it accepts every other string. The conditions are stated on the string
  itself (\<open>Split_join\<close> and \<open>Split_pieces\<close> say what the labels are), and the
  validator is a function of the string alone.
\<close>

theorem isValidDomain_rejects_iff:
  "\<not> isValidDomain d \<longleftrightarrow>
     (length d = 0 \<or> length d > 253
      \<or> (\<exists>u v. d = u @ ''..'' @ v)
      \<or> (\<exists>t. d = ''.'' @ t) \<or> (\<exists>t. d = t @ ''.'')
      \<or> length (Split d ''.'') < 2
      \<or> (\<exists>label\<in>set (Split d ''.''). length label = 0 \<or> length label > 63))"
proof -
  have p: "HasPrefix d ''.'' \<longleftrightarrow> (\<exists>t. d = ''.'' @ t)"
    by (auto simp: HasPrefix_iff_prefix prefix_def)
  have s: "HasSuffix d ''.'' \<longleftrightarrow> (\<exists>t. d = t @ ''.'')"
    by (auto simp: HasSuffix_iff_suffix suffix_def)
  have c: "Contains d ''..'' \<longleftrightarrow> (\<exists>u v. d = u @ ''..'' @ v)"
    by (rule Contains_iff)
  have l: "partsOk (Split d ''.'') \<longleftrightarrow>
      \<not> (\<exists>label\<in>set (Split d ''.''). length label = 0 \<or> length label > 63)"
    by (auto simp: partsOk_iff)
  show ?thesis
    unfolding isValidDomain_def Let_def p s c l
    by (simp only: if_False if_True split: if_splits) auto
qed

theorem isValidDomain_rejects_iff_witness:
  "isValidDomain ''example.com'' \<and> \<not> isValidDomain ''a..com''"
proof -
  have "''a..com'' = ''a'' @ ''..'' @ ''com''" by simp
  then have "\<exists>u v. ''a..com'' = u @ ''..'' @ v" by blast
  then have rejected: "\<not> isValidDomain ''a..com''"
    using isValidDomain_rejects_iff [of "''a..com''"] by blast
  have n1: "\<not> (\<exists>u v. ''example.com'' = u @ ''..'' @ v)"
    unfolding Contains_iff [symmetric] by code_simp
  have n2: "\<not> (\<exists>t. ''example.com'' = ''.'' @ t)" by simp
  have "\<not> suffix ''.'' ''example.com''"
    unfolding HasSuffix_iff_suffix [symmetric] by code_simp
  then have n3: "\<not> (\<exists>t. ''example.com'' = t @ ''.'')" by (auto simp: suffix_def)
  have n4: "\<not> length (Split ''example.com'' ''.'') < 2" by code_simp
  have n5: "\<not> (\<exists>label\<in>set (Split ''example.com'' ''.''). length label = 0 \<or> length label > 63)"
    by code_simp
  have "isValidDomain ''example.com''"
    using isValidDomain_rejects_iff [of "''example.com''"] n1 n2 n3 n4 n5 by simp
  with rejected show ?thesis by simp
qed

subsection \<open>Options\<close>

text \<open>
  C5. For every options object of a request, each of threads, timeout and
  max_enumeration_time replaces the default only when it is strictly positive, and the
  defaults are 10, 30 and 10; all and only_recursive always take the caller's value; the
  JSON output mode of the engine's options is true whatever the request holds, also when
  it has no options; and the options with which either handler constructs the runner are
  these.
\<close>

theorem options_translation:
  "buildOptions (Some u) =
     \<lparr>opt_Threads = (if Threads u > 0 then Threads u else 10),
      opt_Timeout = (if Timeout u > 0 then Timeout u else 30),
      opt_MaxEnumerationTime = (if MaxEnumerationTime u > 0 then MaxEnumerationTime u else 10),
      opt_JSON = True, opt_All = All u, opt_OnlyRecursive = OnlyRecursive u\<rparr>
   \<and> opt_JSON (buildOptions reqOptions)
   \<and> (CallNewRunner opts \<in> set (snd (enumerateDomainHandler engine elapsed r))
        \<or> CallNewRunner opts \<in> set (snd (enumerateBatchHandler engine elapsed r))
      \<longrightarrow> opt_JSON opts
          \<and> (\<exists>req. Decoded r = Some req \<and> opts = buildOptions (Options req)))"
  using buildOptions_Some [of u] buildOptions_JSON
    single_runner_options [of opts engine elapsed r] batch_runner_options [of opts engine elapsed r]
  by blast

theorem options_translation_witness:
  "buildOptions (Some \<lparr>Threads = 20, Timeout = 0, MaxEnumerationTime = - 5, All = True,
                        OnlyRecursive = False\<rparr>) =
     \<lparr>opt_Threads = 20, opt_Timeout = 30, opt_MaxEnumerationTime = 10, opt_JSON = True,
      opt_All = True, opt_OnlyRecursive = False\<rparr>
   \<and> opt_JSON (buildOptions None)
   \<and> snd (enumerateDomainHandler (scriptedEngine (\<lambda>n domain. ([], None))) ''0s''
        \<lparr>Method = ''POST'',
         Decoded = Some \<lparr>Domain = ''a.com'', Domains = [],
                          Options = Some \<lparr>Threads = 20, Timeout = 0, MaxEnumerationTime = - 5,
                                           All = True, OnlyRecursive = False\<rparr>\<rparr>\<rparr>)
     = [CallNewRunner \<lparr>opt_Threads = 20, opt_Timeout = 30, opt_MaxEnumerationTime = 10,
                        opt_JSON = True, opt_All = True, opt_OnlyRecursive = False\<rparr>,
        CallEnumerate ''a.com'']"
proof -
  let ?u = "\<lparr>Threads = 20, Timeout = 0, MaxEnumerationTime = - 5, All = True,
             OnlyRecursive = False\<rparr>"
  let ?e = "scriptedEngine (\<lambda>n domain. ([], None)) :: nat Engine"
  let ?r = "\<lparr>Method = ''POST'',
         Decoded = Some \<lparr>Domain = ''a.com'', Domains = [], Options = Some ?u\<rparr>\<rparr>"
  have v: "isValidDomain ''a.com''" by code_simp
  have ev: "snd (enumerateDomainHandler ?e ''0s'' ?r)
      = [CallNewRunner (buildOptions (Some ?u)), CallEnumerate ''a.com'']"
    using v by (simp add: enumerateDomainHandler_def scriptedEngine_def Let_def)
  from options_translation [of ?u None "buildOptions (Some ?u)" ?e "''0s''" ?r] ev
  show ?thesis by simp
qed

subsection \<open>Normalization of the engine's output\<close>

text \<open>
  C6, as amended. Each line is handled on its own and in order, in both handlers. A line
  that is empty or \<open>{}\<close> after trimming yields no record. Every other line yields
  exactly one record: when \<open>json.Unmarshal\<close> accepts the trimmed line, the record has the
  decoded host as subdomain and the decoded source as its single source (so the fixture
  line gives \<open>api.example.com\<close> with the source \<open>crtsh\<close>); when it returns an error,
  the record has the line after trimming as subdomain (not the line as the engine wrote
  it) and the single source \<open>subfinder\<close>. The loop has no failure: its result is always
  a list of records.
\<close>

theorem normalization_of_lines:
  \<open>parseLines lines [] = concat (map (\<lambda>l. parseLines [l] []) lines)
   \<and> fst (parseLinesBatch lines ([], 0)) = parseLines lines []
   \<and> (TrimSpace l = [] \<or> TrimSpace l = ''{}'' \<longrightarrow> parseLines [l] [] = [])
   \<and> (TrimSpace l \<noteq> [] \<and> TrimSpace l \<noteq> ''{}''
        \<and> Unmarshal (TrimSpace l) zeroOutput = (None, v)
      \<longrightarrow> parseLines [l] []
            = [\<lparr>Subdomain = Host v, Sources = [Source v], SourceCount = 1\<rparr>])
   \<and> (TrimSpace l \<noteq> [] \<and> TrimSpace l \<noteq> ''{}''
        \<and> Unmarshal (TrimSpace l) zeroOutput = (Some err, v)
      \<longrightarrow> parseLines [l] []
            = [\<lparr>Subdomain = TrimSpace l, Sources = [''subfinder''], SourceCount = 1\<rparr>])
   \<and> parseLines [''{"host":"api.example.com","source":"crtsh","input":"example.com"}''] []
       = [\<lparr>Subdomain = ''api.example.com'', Sources = [''crtsh''], SourceCount = 1\<rparr>]
   \<and> parseLines [''not-json-and-not-domain-like''] []
       = [\<lparr>Subdomain = ''not-json-and-not-domain-like'', Sources = [''subfinder''],
           SourceCount = 1\<rparr>]\<close>
  using parseLines_concat [of lines] parseLinesBatch_results [of lines]
    parseLines_skip [of l] parseLines_structured [of l v] parseLines_fallback [of l err v]
    fixture_line malformed_line
  by blast

theorem normalization_of_lines_witness:
  \<open>parseLines [''   ''] [] = []
   \<and> parseLines ['' {"host":"api.example.com","source":"crtsh","input":"example.com"} ''] []
       = [\<lparr>Subdomain = ''api.example.com'', Sources = [''crtsh''], SourceCount = 1\<rparr>]
   \<and> parseLines [''a.example.com ''] []
       = [\<lparr>Subdomain = ''a.example.com'', Sources = [''subfinder''], SourceCount = 1\<rparr>]\<close>
proof -
  let ?j = \<open>'' {"host":"api.example.com","source":"crtsh","input":"example.com"} ''\<close>
  let ?v = "\<lparr>Host = ''api.example.com'', Source = ''crtsh'', Input = ''example.com''\<rparr>"
  have s: "TrimSpace ''   '' = [] \<or> TrimSpace ''   '' = ''{}''" by code_simp
  have j: "TrimSpace ?j \<noteq> [] \<and> TrimSpace ?j \<noteq> ''{}''
      \<and> Unmarshal (TrimSpace ?j) zeroOutput = (None, ?v)"
    by code_simp
  have t: "TrimSpace ''a.example.com '' = ''a.example.com''" by code_simp
  have f: "TrimSpace ''a.example.com '' \<noteq> [] \<and> TrimSpace ''a.example.com '' \<noteq> ''{}''
      \<and> Unmarshal (TrimSpace ''a.example.com '') zeroOutput = (Some SyntaxError, zeroOutput)"
    by code_simp
  from normalization_of_lines [where l = "''   ''"] s
  have 1: "parseLines [''   ''] [] = []" by blast
  from normalization_of_lines [where l = ?j and v = ?v] j
  have 2: "parseLines [?j] [] = [\<lparr>Subdomain = Host ?v, Sources = [Source ?v], SourceCount = 1\<rparr>]"
    by blast
  from normalization_of_lines [where l = "''a.example.com ''" and err = SyntaxError and v = zeroOutput] f
  have 3: "parseLines [''a.example.com ''] []
      = [\<lparr>Subdomain = TrimSpace ''a.example.com '', Sources = [''subfinder''], SourceCount = 1\<rparr>]"
    by blast
  from 1 2 3 t show ?thesis by simp
qed

text \<open>
  C6 as stated fails for a line with white space around it: the engine's output
  \<open>"a.example.com \nb.example.com\n"\<close> has the first line \<open>"a.example.com "\<close>, which is
  not JSON, and the fallback record carries \<open>"a.example.com"\<close>, not the literal line.
\<close>

theorem fallback_subdomain_is_trimmed_counterexample:
  "TrimSpace ''a.example.com '' \<noteq> [] \<and> TrimSpace ''a.example.com '' \<noteq> ''{}''
   \<and> fst (Unmarshal (TrimSpace ''a.example.com '') zeroOutput) = Some SyntaxError
   \<and> fst (Unmarshal ''a.example.com '' zeroOutput) = Some SyntaxError
   \<and> Split (TrimSpace ''a.example.com \<newline>b.example.com\<newline>'') ''\<newline>''
       = [''a.example.com '', ''b.example.com'']
   \<and> parseLines [''a.example.com '', ''b.example.com''] []
       = [\<lparr>Subdomain = ''a.example.com'', Sources = [''subfinder''], SourceCount = 1\<rparr>,
          \<lparr>Subdomain = ''b.example.com'', Sources = [''subfinder''], SourceCount = 1\<rparr>]
   \<and> parseLines [''a.example.com ''] []
       \<noteq> [\<lparr>Subdomain = ''a.example.com '', Sources = [''subfinder''], SourceCount = 1\<rparr>]"
  by code_simp

text \<open>
  C10, as amended. A line that after trimming is a JSON object other than the literal
  \<open>{}\<close> is not skipped: it yields one record at its place among the results, and the
  batch counter grows by one for it. Which record depends on \<open>json.Unmarshal\<close>, and the
  four parts of the theorem say how.

  First, when the scanner accepts the line as an object, and the members named host,
  source or input (upper and lower case taken as equal) all hold a string or \<open>null\<close>,
  \<open>json.Unmarshal\<close> returns no error: the line does not take the fallback path, and
  its subdomain is the decoded host, the empty string when no member is named host.
  Second, when one of these members holds a number, a boolean, an array or an object,
  \<open>json.Unmarshal\<close> returns a type error and the line takes the fallback path: the
  record carries the trimmed line and the source \<open>subfinder\<close>. Third, a line that the
  scanner refuses takes the fallback path as well. Fourth, the scanner refuses every line
  in which more than \<open>maxNestingDepth\<close>, that is 10000, arrays and objects are open at
  the same time: a JSON object nested deeper than that takes the fallback path.

  The instances below are the object of the claim, \<open>{"source":"x","input":"y"}\<close>, an
  object whose source is an array, an object that is not closed, and the object
  \<open>{"a":[[...]]}\<close> with 10000 arrays inside one another, which the scanner refuses, and
  with 9999, which it accepts.
\<close>

theorem object_without_host_is_a_result:
  assumes "TrimSpace l \<noteq> []" and "TrimSpace l \<noteq> ''{}''"
  shows "(parseJSON (TrimSpace l) = Some (JObject ms)
          \<and> (\<forall>(key, x)\<in>set ms.
                foldName key \<in> {foldName ''host'', foldName ''source'', foldName ''input''}
                \<longrightarrow> x = JNull \<or> (\<exists>s. x = JString s))
        \<longrightarrow> (\<exists>v. Unmarshal (TrimSpace l) zeroOutput = (None, v)
               \<and> ((\<forall>(key, x)\<in>set ms. foldName key \<noteq> foldName ''host'') \<longrightarrow> Host v = [])
               \<and> parseLines (before @ [l] @ after) []
                   = parseLines before []
                     @ [\<lparr>Subdomain = Host v, Sources = [Source v], SourceCount = 1\<rparr>]
                     @ parseLines after []
               \<and> parseLinesBatch [l] (allResults, totalCount)
                   = (allResults
                        @ [\<lparr>Subdomain = Host v, Sources = [Source v], SourceCount = 1\<rparr>],
                      totalCount + 1)))
       \<and> (parseJSON (TrimSpace l) = Some (JObject ms)
          \<and> (\<exists>(key, x)\<in>set ms.
                foldName key \<in> {foldName ''host'', foldName ''source'', foldName ''input''}
                \<and> x \<noteq> JNull \<and> (\<forall>s. x \<noteq> JString s))
        \<longrightarrow> (\<exists>v. Unmarshal (TrimSpace l) zeroOutput = (Some UnmarshalTypeError, v))
            \<and> parseLines (before @ [l] @ after) []
                = parseLines before []
                  @ [\<lparr>Subdomain = TrimSpace l, Sources = [''subfinder''], SourceCount = 1\<rparr>]
                  @ parseLines after []
            \<and> parseLinesBatch [l] (allResults, totalCount)
                = (allResults
                     @ [\<lparr>Subdomain = TrimSpace l, Sources = [''subfinder''], SourceCount = 1\<rparr>],
                   totalCount + 1))
       \<and> (parseJSON (TrimSpace l) = None
        \<longrightarrow> Unmarshal (TrimSpace l) zeroOutput = (Some SyntaxError, zeroOutput)
            \<and> parseLines (before @ [l] @ after) []
                = parseLines before []
                  @ [\<lparr>Subdomain = TrimSpace l, Sources = [''subfinder''], SourceCount = 1\<rparr>]
                  @ parseLines after []
            \<and> parseLinesBatch [l] (allResults, totalCount)
                = (allResults
                     @ [\<lparr>Subdomain = TrimSpace l, Sources = [''subfinder''], SourceCount = 1\<rparr>],
                   totalCount + 1))
       \<and> (maxNestingDepth < nestingDepth (TrimSpace l) \<longrightarrow> parseJSON (TrimSpace l) = None)"
proof (intro conjI impI)
  assume h: "parseJSON (TrimSpace l) = Some (JObject ms)
          \<and> (\<forall>(key, x)\<in>set ms.
                foldName key \<in> {foldName ''host'', foldName ''source'', foldName ''input''}
                \<longrightarrow> x = JNull \<or> (\<exists>s. x = JString s))"
  obtain v failed where st: "storeMembers ms (zeroOutput, False) = (v, failed)"
    by (cases "storeMembers ms (zeroOutput, False)")
  from h have ok: "\<forall>(key, x)\<in>set ms.
                foldName key \<in> {foldName ''host'', foldName ''source'', foldName ''input''}
                \<longrightarrow> x = JNull \<or> (\<exists>s. x = JString s)" by simp
  from storeMembers_accepts [OF ok, of zeroOutput False] st have "failed = False" by simp
  with h st have u: "Unmarshal (TrimSpace l) zeroOutput = (None, v)"
    by (simp add: Unmarshal_def)
  have one: "parseLines [l] [] = [\<lparr>Subdomain = Host v, Sources = [Source v], SourceCount = 1\<rparr>]"
    using assms u by (rule parseLines_structured)
  have host: "(\<forall>(key, x)\<in>set ms. foldName key \<noteq> foldName ''host'') \<longrightarrow> Host v = []"
  proof
    assume "\<forall>(key, x)\<in>set ms. foldName key \<noteq> foldName ''host''"
    from storeMembers_keeps_Host [OF this, of zeroOutput False] st
    show "Host v = []" by (simp add: zeroOutput_def)
  qed
  from u host one parseLines_at [of before l after] parseLinesBatch_one [of l allResults totalCount]
  show "\<exists>v. Unmarshal (TrimSpace l) zeroOutput = (None, v)
               \<and> ((\<forall>(key, x)\<in>set ms. foldName key \<noteq> foldName ''host'') \<longrightarrow> Host v = [])
               \<and> parseLines (before @ [l] @ after) []
                   = parseLines before []
                     @ [\<lparr>Subdomain = Host v, Sources = [Source v], SourceCount = 1\<rparr>]
                     @ parseLines after []
               \<and> parseLinesBatch [l] (allResults, totalCount)
                   = (allResults
                        @ [\<lparr>Subdomain = Host v, Sources = [Source v], SourceCount = 1\<rparr>],
                      totalCount + 1)"
    by simp
next
  assume h: "parseJSON (TrimSpace l) = Some (JObject ms)
          \<and> (\<exists>(key, x)\<in>set ms.
                foldName key \<in> {foldName ''host'', foldName ''source'', foldName ''input''}
                \<and> x \<noteq> JNull \<and> (\<forall>s. x \<noteq> JString s))"
  obtain v failed where st: "storeMembers ms (zeroOutput, False) = (v, failed)"
    by (cases "storeMembers ms (zeroOutput, False)")
  from h have bad: "\<exists>(key, x)\<in>set ms.
                foldName key \<in> {foldName ''host'', foldName ''source'', foldName ''input''}
                \<and> x \<noteq> JNull \<and> (\<forall>s. x \<noteq> JString s)" by simp
  from storeMembers_rejects [OF bad, of zeroOutput False] st have "failed = True" by simp
  with h st have u: "Unmarshal (TrimSpace l) zeroOutput = (Some UnmarshalTypeError, v)"
    by (simp add: Unmarshal_def)
  have one: "parseLines [l] []
      = [\<lparr>Subdomain = TrimSpace l, Sources = [''subfinder''], SourceCount = 1\<rparr>]"
    using assms u by (rule parseLines_fallback)
  from u show "\<exists>v. Unmarshal (TrimSpace l) zeroOutput = (Some UnmarshalTypeError, v)" by blast
  from one parseLines_at [of before l after]
  show "parseLines (before @ [l] @ after) []
                = parseLines before []
                  @ [\<lparr>Subdomain = TrimSpace l, Sources = [''subfinder''], SourceCount = 1\<rparr>]
                  @ parseLines after []" by simp
  from one parseLinesBatch_one [of l allResults totalCount]
  show "parseLinesBatch [l] (allResults, totalCount)
                = (allResults
                     @ [\<lparr>Subdomain = TrimSpace l, Sources = [''subfinder''], SourceCount = 1\<rparr>],
                   totalCount + 1)" by simp
next
  assume h: "parseJSON (TrimSpace l) = None"
  then have u: "Unmarshal (TrimSpace l) zeroOutput = (Some SyntaxError, zeroOutput)"
    by (simp add: Unmarshal_def)
  have one: "parseLines [l] []
      = [\<lparr>Subdomain = TrimSpace l, Sources = [''subfinder''], SourceCount = 1\<rparr>]"
    using assms u by (rule parseLines_fallback)
  from u show "Unmarshal (TrimSpace l) zeroOutput = (Some SyntaxError, zeroOutput)" .
  from one parseLines_at [of before l after]
  show "parseLines (before @ [l] @ after) []
                = parseLines before []
                  @ [\<lparr>Subdomain = TrimSpace l, Sources = [''subfinder''], SourceCount = 1\<rparr>]
                  @ parseLines after []" by simp
  from one parseLinesBatch_one [of l allResults totalCount]
  show "parseLinesBatch [l] (allResults, totalCount)
                = (allResults
                     @ [\<lparr>Subdomain = TrimSpace l, Sources = [''subfinder''], SourceCount = 1\<rparr>],
                   totalCount + 1)" by simp
next
  assume "maxNestingDepth < nestingDepth (TrimSpace l)"
  then show "parseJSON (TrimSpace l) = None" by (rule parseJSON_nesting)
qed

theorem object_without_host_is_a_result_witness:
  \<open>parseLines [''{"source":"x","input":"y"}''] []
     = [\<lparr>Subdomain = [], Sources = [''x''], SourceCount = 1\<rparr>]
   \<and> parseLinesBatch [''{"source":"x","input":"y"}''] ([], 0)
     = ([\<lparr>Subdomain = [], Sources = [''x''], SourceCount = 1\<rparr>], 1)
   \<and> parseLines [''{"host":"a.example.com","source":["crtsh"]}''] []
     = [\<lparr>Subdomain = ''{"host":"a.example.com","source":["crtsh"]}'',
         Sources = [''subfinder''], SourceCount = 1\<rparr>]
   \<and> parseLines [''{"host":"a.example.com"''] []
     = [\<lparr>Subdomain = ''{"host":"a.example.com"'', Sources = [''subfinder''],
         SourceCount = 1\<rparr>]
   \<and> parseLines [''{"a":'' @ replicate 10000 (CHR ''['') @ replicate 10000 (CHR '']'') @ ''}''] []
     = [\<lparr>Subdomain
          = ''{"a":'' @ replicate 10000 (CHR ''['') @ replicate 10000 (CHR '']'') @ ''}'',
         Sources = [''subfinder''], SourceCount = 1\<rparr>]
   \<and> parseLines [''{"a":'' @ replicate 9999 (CHR ''['') @ replicate 9999 (CHR '']'') @ ''}''] []
     = [\<lparr>Subdomain = [], Sources = [[]], SourceCount = 1\<rparr>]\<close>
proof -
  let ?l = \<open>''{"source":"x","input":"y"}''\<close>
  let ?ms = "[(''source'', JString ''x''), (''input'', JString ''y'')]"
  have t: "TrimSpace ?l = ?l" by code_simp
  have h: "TrimSpace ?l \<noteq> []" "TrimSpace ?l \<noteq> ''{}''" unfolding t by simp_all
  have p: "parseJSON (TrimSpace ?l) = Some (JObject ?ms)" by code_simp
  have ok: "\<forall>(key, x)\<in>set ?ms.
           foldName key \<in> {foldName ''host'', foldName ''source'', foldName ''input''}
           \<longrightarrow> x = JNull \<or> (\<exists>s. x = JString s)"
    by simp
  have u: "Unmarshal (TrimSpace ?l) zeroOutput = (None, \<lparr>Host = [], Source = ''x'', Input = ''y''\<rparr>)"
    by code_simp
  from object_without_host_is_a_result
    [OF h, where ms = ?ms and before = "[]" and after = "[]"
       and allResults = "[]" and totalCount = 0] p ok
  obtain v where v: "Unmarshal (TrimSpace ?l) zeroOutput = (None, v)"
    and pl: "parseLines ([] @ [?l] @ []) []
               = parseLines [] []
                 @ [\<lparr>Subdomain = Host v, Sources = [Source v], SourceCount = 1\<rparr>]
                 @ parseLines [] []"
    and pb: "parseLinesBatch [?l] ([], 0)
               = ([] @ [\<lparr>Subdomain = Host v, Sources = [Source v], SourceCount = 1\<rparr>], 0 + 1)"
    by blast
  from v u have "v = \<lparr>Host = [], Source = ''x'', Input = ''y''\<rparr>" by simp
  with pl pb have 1: "parseLines [?l] [] = [\<lparr>Subdomain = [], Sources = [''x''], SourceCount = 1\<rparr>]
      \<and> parseLinesBatch [?l] ([], 0)
          = ([\<lparr>Subdomain = [], Sources = [''x''], SourceCount = 1\<rparr>], 1)"
    by simp
  let ?a = \<open>''{"host":"a.example.com","source":["crtsh"]}''\<close>
  let ?as = "[(''host'', JString ''a.example.com''), (''source'', JArray [JString ''crtsh''])]"
  have ta: "TrimSpace ?a = ?a" by code_simp
  have ha: "TrimSpace ?a \<noteq> []" "TrimSpace ?a \<noteq> ''{}''" unfolding ta by simp_all
  have pa: "parseJSON (TrimSpace ?a) = Some (JObject ?as)" by code_simp
  have bad: "\<exists>(key, x)\<in>set ?as.
           foldName key \<in> {foldName ''host'', foldName ''source'', foldName ''input''}
           \<and> x \<noteq> JNull \<and> (\<forall>s. x \<noteq> JString s)"
    by simp
  from object_without_host_is_a_result
    [OF ha, where ms = ?as and before = "[]" and after = "[]"] pa bad
  have "parseLines ([] @ [?a] @ []) []
      = parseLines [] []
        @ [\<lparr>Subdomain = TrimSpace ?a, Sources = [''subfinder''], SourceCount = 1\<rparr>]
        @ parseLines [] []"
    by blast
  then have 2: "parseLines [?a] []
      = [\<lparr>Subdomain = ?a, Sources = [''subfinder''], SourceCount = 1\<rparr>]"
    by (simp add: ta)
  let ?b = \<open>''{"host":"a.example.com"''\<close>
  have tb: "TrimSpace ?b = ?b" by code_simp
  have hb: "TrimSpace ?b \<noteq> []" "TrimSpace ?b \<noteq> ''{}''" unfolding tb by simp_all
  have nb: "parseJSON (TrimSpace ?b) = None" by code_simp
  from object_without_host_is_a_result [OF hb, where before = "[]" and after = "[]"] nb
  have "parseLines ([] @ [?b] @ []) []
      = parseLines [] []
        @ [\<lparr>Subdomain = TrimSpace ?b, Sources = [''subfinder''], SourceCount = 1\<rparr>]
        @ parseLines [] []"
    by blast
  then have 3: "parseLines [?b] []
      = [\<lparr>Subdomain = ?b, Sources = [''subfinder''], SourceCount = 1\<rparr>]"
    by (simp add: tb)
  let ?d = \<open>''{"a":'' @ replicate 10000 (CHR ''['') @ replicate 10000 (CHR '']'') @ ''}''\<close>
  have td: "TrimSpace ?d = ?d" by (rule deep_object_trimmed)
  have hd: "TrimSpace ?d \<noteq> []" "TrimSpace ?d \<noteq> ''{}''"
    unfolding td using deep_object_not_skipped [of 10000] by blast+
  have nd: "maxNestingDepth < nestingDepth (TrimSpace ?d)"
    unfolding td maxNestingDepth_def by (rule deep_object_nesting)
  note deep = object_without_host_is_a_result [OF hd, where before = "[]" and after = "[]"]
  from deep nd have "parseJSON (TrimSpace ?d) = None" by blast
  with deep have "parseLines ([] @ [?d] @ []) []
      = parseLines [] []
        @ [\<lparr>Subdomain = TrimSpace ?d, Sources = [''subfinder''], SourceCount = 1\<rparr>]
        @ parseLines [] []"
    by blast
  then have 4: "parseLines [?d] []
      = [\<lparr>Subdomain = ?d, Sources = [''subfinder''], SourceCount = 1\<rparr>]"
    unfolding td by (simp only: parseLines.simps append_Nil append_Nil2)
  let ?e = \<open>''{"a":'' @ replicate 9999 (CHR ''['') @ replicate 9999 (CHR '']'') @ ''}''\<close>
  let ?es = "[(''a'', nested (9999 - 1))]"
  have te: "TrimSpace ?e = ?e" by (rule deep_object_trimmed)
  have he: "TrimSpace ?e \<noteq> []" "TrimSpace ?e \<noteq> ''{}''"
    unfolding te using deep_object_not_skipped [of 9999] by blast+
  have pe: "parseJSON (TrimSpace ?e) = Some (JObject ?es)"
    unfolding te by (rule object_at_the_limit_parses) (simp_all add: maxNestingDepth_def)
  have nf: "foldName ''a'' \<noteq> foldName ''host''" "foldName ''a'' \<noteq> foldName ''source''"
      "foldName ''a'' \<noteq> foldName ''input''"
    by code_simp+
  then have oke: "\<forall>(key, x)\<in>set ?es.
           foldName key \<in> {foldName ''host'', foldName ''source'', foldName ''input''}
           \<longrightarrow> x = JNull \<or> (\<exists>s. x = JString s)"
    by simp
  from pe nf have ue: "Unmarshal (TrimSpace ?e) zeroOutput = (None, zeroOutput)"
    by (simp add: Unmarshal_def storeMember_def Let_def)
  from object_without_host_is_a_result
    [OF he, where ms = ?es and before = "[]" and after = "[]"] pe oke
  obtain v where v: "Unmarshal (TrimSpace ?e) zeroOutput = (None, v)"
    and pl: "parseLines ([] @ [?e] @ []) []
               = parseLines [] []
                 @ [\<lparr>Subdomain = Host v, Sources = [Source v], SourceCount = 1\<rparr>]
                 @ parseLines [] []"
    by blast
  from v ue have "v = zeroOutput" by simp
  with pl have 5: "parseLines [?e] [] = [\<lparr>Subdomain = [], Sources = [[]], SourceCount = 1\<rparr>]"
    by (simp add: zeroOutput_def del: replicate.simps)
  from 1 2 3 4 5 show ?thesis by blast
qed

text \<open>
  C10 as stated fails for a JSON object in which such a member holds another kind of
  value: \<open>{"source":5}\<close> is a JSON object without a host, \<open>json.Unmarshal\<close> returns a
  type error for it, and the line takes the fallback path.
\<close>

theorem object_with_number_takes_fallback_counterexample:
  \<open>TrimSpace ''{"source":5}'' = ''{"source":5}''
   \<and> parseJSON ''{"source":5}'' = Some (JObject [(''source'', JNumber)])
   \<and> Unmarshal ''{"source":5}'' zeroOutput = (Some UnmarshalTypeError, zeroOutput)
   \<and> parseLines [''{"source":5}''] []
       = [\<lparr>Subdomain = ''{"source":5}'', Sources = [''subfinder''], SourceCount = 1\<rparr>]\<close>
proof -
  let ?l = \<open>''{"source":5}''\<close>
  have t: "TrimSpace ?l = ?l" by code_simp
  have p: "parseJSON ?l = Some (JObject [(''source'', JNumber)])" by code_simp
  have u: "Unmarshal ?l zeroOutput = (Some UnmarshalTypeError, zeroOutput)" by code_simp
  have "parseLines [?l] []
      = [\<lparr>Subdomain = TrimSpace ?l, Sources = [''subfinder''], SourceCount = 1\<rparr>]"
    by (rule parseLines_fallback [where err = UnmarshalTypeError and v = zeroOutput])
       (simp_all add: t u)
  with t p u show ?thesis by simp
qed

subsection \<open>Responses\<close>

text \<open>
  C7. In every success response of the single-domain and of the batch handler, the count
  is the length of the results. In the batch handler this is a property of the counter
  \<open>totalCount\<close>, which is incremented beside every append, also on the fallback branch,
  and left alone for a domain that fails.
\<close>

theorem count_is_length_of_results:
  "(Body (fst (enumerateDomainHandler engine elapsed r)) = EnumerateBody response
      \<longrightarrow> Count response = int (length (Results response)))
   \<and> (Body (fst (enumerateBatchHandler engine elapsed r)) = EnumerateBody response
      \<longrightarrow> Count response = int (length (Results response)))"
  using single_success_body [of engine elapsed r response]
    batch_success_body [of engine elapsed r response] by blast

theorem count_is_length_of_results_witness:
  "Body (fst (enumerateDomainHandler
          (scriptedEngine (\<lambda>n domain.
             if domain = ''b.com'' then (''x.b.com'', Some ''timeout'')
             else (''x.a.com\<newline>{}\<newline>'', None)))
          ''0s''
          \<lparr>Method = ''POST'',
           Decoded = Some \<lparr>Domain = ''a.com'', Domains = [''a.com'', ''b.com''],
                            Options = None\<rparr>\<rparr>))
     = EnumerateBody
         \<lparr>Success = True, Message = [],
          Results = [\<lparr>Subdomain = ''x.a.com'', Sources = [''subfinder''], SourceCount = 1\<rparr>],
          Count = 1, SourcesMap = [], Duration = ''0s''\<rparr>
   \<and> Body (fst (enumerateBatchHandler
          (scriptedEngine (\<lambda>n domain.
             if domain = ''b.com'' then (''x.b.com'', Some ''timeout'')
             else (''x.a.com\<newline>{}\<newline>'', None)))
          ''0s''
          \<lparr>Method = ''POST'',
           Decoded = Some \<lparr>Domain = ''a.com'', Domains = [''a.com'', ''b.com''],
                            Options = None\<rparr>\<rparr>))
     = EnumerateBody
         \<lparr>Success = True, Message = [],
          Results = [\<lparr>Subdomain = ''x.a.com'', Sources = [''subfinder''], SourceCount = 1\<rparr>],
          Count = 1, SourcesMap = [], Duration = ''0s''\<rparr>
   \<and> Count \<lparr>Success = True, Message = [],
          Results = [\<lparr>Subdomain = ''x.a.com'', Sources = [''subfinder''], SourceCount = 1\<rparr>],
          Count = 1, SourcesMap = [], Duration = ''0s''\<rparr>
       = int (length (Results \<lparr>Success = True, Message = [],
          Results = [\<lparr>Subdomain = ''x.a.com'', Sources = [''subfinder''], SourceCount = 1\<rparr>],
          Count = 1, SourcesMap = [], Duration = ''0s''\<rparr>))"
proof -
  let ?e = "scriptedEngine (\<lambda>n domain.
             if domain = ''b.com'' then (''x.b.com'', Some ''timeout'')
             else (''x.a.com\<newline>{}\<newline>'', None))"
  let ?r = "\<lparr>Method = ''POST'',
           Decoded = Some \<lparr>Domain = ''a.com'', Domains = [''a.com'', ''b.com''],
                            Options = None\<rparr>\<rparr>"
  let ?x = "\<lparr>Success = True, Message = [],
          Results = [\<lparr>Subdomain = ''x.a.com'', Sources = [''subfinder''], SourceCount = 1\<rparr>],
          Count = 1, SourcesMap = [], Duration = ''0s''\<rparr>"
  have s: "Body (fst (enumerateDomainHandler ?e ''0s'' ?r)) = EnumerateBody ?x"
    by code_simp
  have b: "Body (fst (enumerateBatchHandler ?e ''0s'' ?r)) = EnumerateBody ?x"
    by code_simp
  from count_is_length_of_results [of ?e "''0s''" ?r ?x] s b
  have "Count ?x = int (length (Results ?x))" by blast
  with s b show ?thesis by blast
qed

text \<open>
  C9. Every result of every success response of either handler has exactly one source and
  the source count 1, whatever the engine writes, also when several lines name the same
  subdomain.
\<close>

theorem every_result_has_one_source:
  "(Body (fst (enumerateDomainHandler engine elapsed r)) = EnumerateBody response
      \<longrightarrow> (\<forall>x\<in>set (Results response). length (Sources x) = 1 \<and> SourceCount x = 1))
   \<and> (Body (fst (enumerateBatchHandler engine elapsed r)) = EnumerateBody response
      \<longrightarrow> (\<forall>x\<in>set (Results response). length (Sources x) = 1 \<and> SourceCount x = 1))"
proof (rule conjI; rule impI; rule ballI)
  fix x
  assume "Body (fst (enumerateDomainHandler engine elapsed r)) = EnumerateBody response"
    and "x \<in> set (Results response)"
  with single_success_body [of engine elapsed r response]
  show "length (Sources x) = 1 \<and> SourceCount x = 1"
    using parseLines_one_source by metis
next
  fix x
  assume "Body (fst (enumerateBatchHandler engine elapsed r)) = EnumerateBody response"
    and "x \<in> set (Results response)"
  with batch_success_body [of engine elapsed r response]
  show "length (Sources x) = 1 \<and> SourceCount x = 1"
    using domainResults_single_source by metis
qed

theorem every_result_has_one_source_witness:
  \<open>Body (fst (enumerateBatchHandler
          (scriptedEngine (\<lambda>n domain.
             (''{"host":"a.example.com","source":"src1"}\<newline>{"host":"a.example.com","source":"src2"}'',
              None)))
          ''0s''
          \<lparr>Method = ''POST'',
           Decoded = Some \<lparr>Domain = [], Domains = [''example.com''], Options = None\<rparr>\<rparr>))
     = EnumerateBody
         \<lparr>Success = True, Message = [],
          Results = [\<lparr>Subdomain = ''a.example.com'', Sources = [''src1''], SourceCount = 1\<rparr>,
                     \<lparr>Subdomain = ''a.example.com'', Sources = [''src2''], SourceCount = 1\<rparr>],
          Count = 2, SourcesMap = [], Duration = ''0s''\<rparr>
   \<and> list_all (\<lambda>x. length (Sources x) = 1 \<and> SourceCount x = 1)
        [\<lparr>Subdomain = ''a.example.com'', Sources = [''src1''], SourceCount = 1\<rparr>,
         \<lparr>Subdomain = ''a.example.com'', Sources = [''src2''], SourceCount = 1\<rparr>]\<close>
proof -
  let ?e = \<open>scriptedEngine (\<lambda>n domain.
             (''{"host":"a.example.com","source":"src1"}\<newline>{"host":"a.example.com","source":"src2"}'',
              None))\<close>
  let ?r = "\<lparr>Method = ''POST'',
           Decoded = Some \<lparr>Domain = [], Domains = [''example.com''], Options = None\<rparr>\<rparr>"
  let ?rs = "[\<lparr>Subdomain = ''a.example.com'', Sources = [''src1''], SourceCount = 1\<rparr>,
              \<lparr>Subdomain = ''a.example.com'', Sources = [''src2''], SourceCount = 1\<rparr>]"
  let ?x = "\<lparr>Success = True, Message = [], Results = ?rs,
          Count = 2, SourcesMap = [], Duration = ''0s''\<rparr>"
  have b: "Body (fst (enumerateBatchHandler ?e ''0s'' ?r)) = EnumerateBody ?x"
    by code_simp
  from every_result_has_one_source [of ?e "''0s''" ?r ?x] b
  have "\<forall>x\<in>set (Results ?x). length (Sources x) = 1 \<and> SourceCount x = 1" by blast
  then have "list_all (\<lambda>x. length (Sources x) = 1 \<and> SourceCount x = 1) ?rs"
    by (simp only: list_all_iff EnumerateResponse.simps)
  with b show ?thesis by blast
qed

text \<open>
  C1. The spec's aggregation would merge the three records
  \<open>a.example.com:src1\<close>, \<open>b.example.com:src2\<close>, \<open>a.example.com:src3\<close> into two results,
  the first with the sources \<open>src1\<close> and \<open>src3\<close>, and in a batch it would merge across
  the domains. The single-domain handler returns three results with one source each,
  \<open>a.example.com\<close> twice; the batch handler, for a batch that names \<open>example.com\<close>
  twice, returns \<open>a.example.com\<close> twice.
\<close>

theorem duplicate_subdomains_are_not_merged:
  \<open>fst (enumerateDomainHandler
          (scriptedEngine (\<lambda>n domain.
             (''{"host":"a.example.com","source":"src1"}\<newline>{"host":"b.example.com","source":"src2"}\<newline>{"host":"a.example.com","source":"src3"}\<newline>'',
              None)))
          ''0s''
          \<lparr>Method = ''POST'',
           Decoded = Some \<lparr>Domain = ''example.com'', Domains = [], Options = None\<rparr>\<rparr>)
   = sendResponse
       \<lparr>Success = True, Message = [],
        Results = [\<lparr>Subdomain = ''a.example.com'', Sources = [''src1''], SourceCount = 1\<rparr>,
                   \<lparr>Subdomain = ''b.example.com'', Sources = [''src2''], SourceCount = 1\<rparr>,
                   \<lparr>Subdomain = ''a.example.com'', Sources = [''src3''], SourceCount = 1\<rparr>],
        Count = 3, SourcesMap = [], Duration = ''0s''\<rparr>
   \<and> fst (enumerateBatchHandler
          (scriptedEngine (\<lambda>n domain.
             if n = 0 then (''{"host":"a.example.com","source":"src1"}\<newline>'', None)
             else (''{"host":"a.example.com","source":"src3"}\<newline>'', None)))
          ''0s''
          \<lparr>Method = ''POST'',
           Decoded = Some \<lparr>Domain = [], Domains = [''example.com'', ''example.com''],
                            Options = None\<rparr>\<rparr>)
   = sendResponse
       \<lparr>Success = True, Message = [],
        Results = [\<lparr>Subdomain = ''a.example.com'', Sources = [''src1''], SourceCount = 1\<rparr>,
                   \<lparr>Subdomain = ''a.example.com'', Sources = [''src3''], SourceCount = 1\<rparr>],
        Count = 2, SourcesMap = [], Duration = ''0s''\<rparr>\<close>
  by code_simp

subsection \<open>The batch handler\<close>

text \<open>
  C3. A batch request (a POST whose body decodes) whose list of domains is empty, or holds
  a domain that the validator rejects, is answered with status 400 and an error body, and
  the handler has called nothing of the engine: neither \<open>NewRunner\<close> nor the
  enumeration.
\<close>

theorem batch_validation_all_or_nothing:
  assumes "Method r = ''POST''" and "Decoded r = Some req"
    and "Domains req = [] \<or> (\<exists>d\<in>set (Domains req). \<not> isValidDomain d)"
  shows "\<exists>message.
           enumerateBatchHandler engine elapsed r = (sendError message 400, [])
           \<and> ((Domains req = [] \<and> message = ''Domains array is required and cannot be empty'')
              \<or> (\<exists>d\<in>set (Domains req). \<not> isValidDomain d
                    \<and> message = ''Invalid domain format: '' @ d))"
proof (cases "Domains req = []")
  case True
  with assms(1,2) show ?thesis
    by (simp add: enumerateBatchHandler_def)
next
  case False
  with assms(3) have "firstInvalid (Domains req) \<noteq> None"
    by (simp add: firstInvalid_None)
  then obtain d where d: "firstInvalid (Domains req) = Some d" by auto
  from firstInvalid_Some [OF d] have "d \<in> set (Domains req)" "\<not> isValidDomain d" by simp_all
  moreover from assms(1,2) False d
  have "enumerateBatchHandler engine elapsed r = (sendError (''Invalid domain format: '' @ d) 400, [])"
    by (simp add: enumerateBatchHandler_def)
  ultimately show ?thesis by blast
qed

theorem batch_validation_all_or_nothing_witness:
  "enumerateBatchHandler (scriptedEngine (\<lambda>n domain. ([], None))) ''0s''
     \<lparr>Method = ''POST'',
      Decoded = Some \<lparr>Domain = [], Domains = [''a.com'', [], ''b.com''], Options = None\<rparr>\<rparr>
   = (sendError ''Invalid domain format: '' 400, [])"
proof -
  let ?req = "\<lparr>Domain = [], Domains = [''a.com'', [], ''b.com''], Options = None\<rparr>"
  let ?r = "\<lparr>Method = ''POST'', Decoded = Some ?req\<rparr>"
  have v: "isValidDomain ''a.com''" "isValidDomain ''b.com''" "\<not> isValidDomain []"
    by code_simp+
  have h1: "Method ?r = ''POST''" and h2: "Decoded ?r = Some ?req" by simp_all
  have h3: "Domains ?req = [] \<or> (\<exists>d\<in>set (Domains ?req). \<not> isValidDomain d)"
    using v by simp
  from batch_validation_all_or_nothing [OF h1 h2 h3, of "scriptedEngine (\<lambda>n domain. ([], None))" "''0s''"]
  show ?thesis using v by auto
qed

text \<open>
  C2. In a batch whose domains are all valid and whose runner could be constructed, a
  domain for which the engine returns an error contributes nothing; the engine is called
  for every domain, in the order of the request; and the response is a success whose
  results are the records of the domains that succeeded, in that order, and whose count is
  their number.
\<close>

theorem batch_skips_failing_domains:
  assumes "Method r = ''POST''" and "Decoded r = Some req"
    and "Domains req \<noteq> []" and "\<forall>d\<in>set (Domains req). isValidDomain d"
    and "NewRunner engine (buildOptions (Options req)) = Inr subfinder"
  shows "fst (enumerateBatchHandler engine elapsed r) =
           sendResponse
             \<lparr>Success = True, Message = [],
              Results = concat (map domainResults (engineAnswers engine subfinder (Domains req))),
              Count = int (length (concat (map domainResults
                                (engineAnswers engine subfinder (Domains req))))),
              SourcesMap = [], Duration = elapsed\<rparr>
         \<and> List.map_filter enumerateCall (snd (enumerateBatchHandler engine elapsed r))
             = Domains req"
proof -
  let ?opts = "buildOptions (Options req)"
  obtain r' acc' n' ev' where run:
    "enumerateDomains engine (Domains req) (subfinder, [], 0, [CallNewRunner ?opts]) = (r', acc', n', ev')"
    by (cases "enumerateDomains engine (Domains req) (subfinder, [], 0, [CallNewRunner ?opts])") auto
  from assms(4) have valid: "firstInvalid (Domains req) = None"
    by (simp add: firstInvalid_None)
  from assms(1,2,3,5) valid run
  have h: "enumerateBatchHandler engine elapsed r =
      (sendResponse \<lparr>Success = True, Message = [], Results = acc', Count = n',
                      SourcesMap = [], Duration = elapsed\<rparr>, ev')"
    by (simp add: enumerateBatchHandler_def Let_def)
  from enumerateDomains_eq [OF run] show ?thesis
    unfolding h by (simp add: List.map_filter_def enumerateCall_def)
qed

theorem batch_skips_failing_domains_witness:
  \<open>fst (enumerateBatchHandler
          (scriptedEngine (\<lambda>n domain.
             if domain = ''b.com'' then (''{"host":"x.b.com","source":"crtsh","input":"b.com"}'', Some ''timeout'')
             else (''{"host":"api.a.com","source":"crtsh","input":"a.com"}'', None)))
          ''0s''
          \<lparr>Method = ''POST'',
           Decoded = Some \<lparr>Domain = [], Domains = [''a.com'', ''b.com''], Options = None\<rparr>\<rparr>)
   = sendResponse
       \<lparr>Success = True, Message = [],
        Results = [\<lparr>Subdomain = ''api.a.com'', Sources = [''crtsh''], SourceCount = 1\<rparr>],
        Count = 1, SourcesMap = [], Duration = ''0s''\<rparr>\<close>
proof -
  let ?req = "\<lparr>Domain = [], Domains = [''a.com'', ''b.com''], Options = None\<rparr>"
  let ?r = "\<lparr>Method = ''POST'', Decoded = Some ?req\<rparr>"
  let ?e = \<open>scriptedEngine (\<lambda>n domain.
             if domain = ''b.com'' then (''{"host":"x.b.com","source":"crtsh","input":"b.com"}'', Some ''timeout'')
             else (''{"host":"api.a.com","source":"crtsh","input":"a.com"}'', None))\<close>
  have v: "\<forall>d\<in>set (Domains ?req). isValidDomain d" by code_simp
  have h1: "Method ?r = ''POST''" and h2: "Decoded ?r = Some ?req"
    and h3: "Domains ?req \<noteq> []" by simp_all
  have h5: "NewRunner ?e (buildOptions (Options ?req)) = Inr 0"
    by (simp add: scriptedEngine_def)
  have e: "concat (map domainResults (engineAnswers ?e 0 (Domains ?req)))
      = [\<lparr>Subdomain = ''api.a.com'', Sources = [''crtsh''], SourceCount = 1\<rparr>]"
    by code_simp
  from batch_skips_failing_domains [OF h1 h2 h3 v h5, of "''0s''"] show ?thesis
    unfolding e by simp
qed

subsection \<open>The single-domain handler\<close>

text \<open>
  C8. When the engine returns an error for the domain of a single-domain request, the
  response has status 500 and an error body with \<open>success = false\<close> and the engine's
  message; what the engine may have written before it failed is not returned (an error
  body has no results and no count).
\<close>

theorem single_engine_failure:
  assumes "Method r = ''POST''" and "Decoded r = Some req"
    and "Domain req \<noteq> []" and "isValidDomain (Domain req)"
    and "NewRunner engine (buildOptions (Options req)) = Inr subfinder"
    and "EnumerateSingleDomainWithCtx engine subfinder (Domain req) = (subfinder', output, Some err)"
  shows "fst (enumerateDomainHandler engine elapsed r) =
           \<lparr>StatusCode = 500, ContentType = ''application/json'',
            Body = ErrorBody \<lparr>ErrorSuccess = False,
                              Error = ''Failed to enumerate subdomains: '' @ err\<rparr>\<rparr>"
  using assms by (simp add: enumerateDomainHandler_def sendError_def Let_def)

theorem single_engine_failure_witness:
  "fst (enumerateDomainHandler
          (scriptedEngine (\<lambda>n domain. (''a.example.com'', Some ''context deadline exceeded'')))
          ''0s''
          \<lparr>Method = ''POST'',
           Decoded = Some \<lparr>Domain = ''example.com'', Domains = [], Options = None\<rparr>\<rparr>)
   = \<lparr>StatusCode = 500, ContentType = ''application/json'',
      Body = ErrorBody \<lparr>ErrorSuccess = False,
               Error = ''Failed to enumerate subdomains: context deadline exceeded''\<rparr>\<rparr>"
proof -
  let ?req = "\<lparr>Domain = ''example.com'', Domains = [], Options = None\<rparr>"
  let ?r = "\<lparr>Method = ''POST'', Decoded = Some ?req\<rparr>"
  let ?e = "scriptedEngine (\<lambda>n domain. (''a.example.com'', Some ''context deadline exceeded''))"
  have v: "isValidDomain (Domain ?req)" by code_simp
  have h1: "Method ?r = ''POST''" and h2: "Decoded ?r = Some ?req"
    and h3: "Domain ?req \<noteq> []" by simp_all
  have h5: "NewRunner ?e (buildOptions (Options ?req)) = Inr 0"
    by (simp add: scriptedEngine_def)
  have h6: "EnumerateSingleDomainWithCtx ?e 0 (Domain ?req)
              = (Suc 0, ''a.example.com'', Some ''context deadline exceeded'')"
    by (simp add: scriptedEngine_def)
  from single_engine_failure [OF h1 h2 h3 v h5 h6, of "''0s''"] show ?thesis by simp
qed

end
